theory Spec2Isabelle
  imports Complex_Main "HOL-Library.Log_Nat"
begin

section \<open>Python values\<close>

text \<open>
  The script \<^verbatim>\<open>transcribe_script.py\<close> consists of the single function
  \<^verbatim>\<open>transcribe_audio(audio_path, segment_length_sec)\<close>. It talks to three libraries
  (NeMo for the speech model, pydub for audio, tempfile/os for files); their operations are
  parameters of the model (the record \<open>env\<close> below), and every theorem holds for
  all of them unless it says otherwise. What an operation raises is a value of \<open>exc\<close>.
  The script tells \<^verbatim>\<open>FileNotFoundError\<close> from the other subclasses of
  \<^verbatim>\<open>Exception\<close>; \<open>BaseException\<close> stands for what is raised without being
  an \<^verbatim>\<open>Exception\<close> (\<^verbatim>\<open>KeyboardInterrupt\<close>, \<^verbatim>\<open>SystemExit\<close>).
\<close>

type_synonym path = string

datatype exc =
    FileNotFoundError
  | ZeroDivisionError
  | OverflowError
  | OtherException string
  | BaseException string

text \<open>\<^verbatim>\<open>isinstance(e, Exception)\<close>.\<close>

fun is_exception :: "exc \<Rightarrow> bool" where
  "is_exception (BaseException s) = False"
| "is_exception e = True"

text \<open>
  A state together with how control left a block: normally (\<open>Completed\<close>, which
  includes \<^verbatim>\<open>return\<close>) or by an exception.
\<close>

datatype 's outcome = Completed 's | Raised exc 's

fun final :: "'s outcome \<Rightarrow> 's" where
  "final (Completed s) = s"
| "final (Raised e s) = s"

subsection \<open>True division of integers and \<^verbatim>\<open>math.ceil\<close>\<close>

text \<open>
  \<^verbatim>\<open>a / b\<close> on two Python integers is a binary64 float: the exact quotient rounded to
  the nearest float, ties to even, with 53 significant bits above \<open>2 ^ - 1022\<close> and
  multiples of \<open>2 ^ - 1074\<close> below. A quotient that is too large raises
  \<^verbatim>\<open>OverflowError\<close>, a zero divisor \<^verbatim>\<open>ZeroDivisionError\<close>. A float is kept
  as sign, mantissa and exponent: its value is \<open>\<plusminus> mantissa * 2 ^ exponent\<close>.
\<close>

record py_float =
  negative :: bool
  mantissa :: int
  exponent :: int

definition round_half_even :: "int \<Rightarrow> int \<Rightarrow> int" where
  "round_half_even n d =
     (let q = n div d; r = n mod d
      in if 2 * r < d then q
         else if d < 2 * r then q + 1
         else if even q then q else q + 1)"

text \<open>The fraction \<open>a / (b * 2 ^ e)\<close> as numerator and denominator.\<close>

definition scale :: "int \<Rightarrow> int \<Rightarrow> int \<Rightarrow> int \<times> int" where
  "scale a b e = (if 0 \<le> e then (a, b * 2 ^ nat e) else (a * 2 ^ nat (- e), b))"

text \<open>\<open>\<lfloor>log\<^sub>2 (a / b)\<rfloor>\<close> for positive \<open>a\<close> and \<open>b\<close>.\<close>

definition ilog2_quot :: "int \<Rightarrow> int \<Rightarrow> int" where
  "ilog2_quot a b =
     (let d = bitlen a - bitlen b
      in if snd (scale a b d) \<le> fst (scale a b d) then d else d - 1)"

text \<open>The quotient of two positive integers, rounded: mantissa and exponent.\<close>

definition round_quot :: "int \<Rightarrow> int \<Rightarrow> exc + int \<times> int" where
  "round_quot a b =
     (let e = max (ilog2_quot a b - 52) (- 1074);
          m = round_half_even (fst (scale a b e)) (snd (scale a b e))
      in if 0 \<le> e \<and> 2 ^ 1024 \<le> m * 2 ^ nat e then Inl OverflowError else Inr (m, e))"

definition py_truediv :: "int \<Rightarrow> int \<Rightarrow> exc + py_float" where
  "py_truediv a b =
     (if b = 0 then Inl ZeroDivisionError
      else if a = 0 then Inr \<lparr>negative = (b < 0), mantissa = 0, exponent = 0\<rparr>
      else case round_quot \<bar>a\<bar> \<bar>b\<bar> of
             Inl e \<Rightarrow> Inl e
           | Inr (m, e) \<Rightarrow> Inr \<lparr>negative = ((a < 0) \<noteq> (b < 0)), mantissa = m, exponent = e\<rparr>)"

definition math_ceil :: "py_float \<Rightarrow> int" where
  "math_ceil x =
     (let m = mantissa x; e = exponent x
      in if negative x
         then - (if 0 \<le> e then m * 2 ^ nat e else m div 2 ^ nat (- e))
         else (if 0 \<le> e then m * 2 ^ nat e else - ((- m) div 2 ^ nat (- e))))"

subsection \<open>Strings\<close>

text \<open>\<^verbatim>\<open>sep.join(xs)\<close> and \<^verbatim>\<open>os.path.basename\<close> (on POSIX paths).\<close>

fun join :: "string \<Rightarrow> string list \<Rightarrow> string" where
  "join sep [] = []"
| "join sep [x] = x"
| "join sep (x # y # ys) = x @ sep @ join sep (y # ys)"

definition basename :: "path \<Rightarrow> string" where
  "basename p = rev (takeWhile (\<lambda>c. c \<noteq> CHR ''/'') (rev p))"

section \<open>Data model\<close>

text \<open>
  An audio buffer (pydub's \<^verbatim>\<open>AudioSegment\<close>) with the three attributes the script
  reads; \<open>length_ms\<close> is \<^verbatim>\<open>len(audio)\<close>. A segment is the slice
  \<^verbatim>\<open>audio[start_time:end_time]\<close>.
\<close>

record audio =
  channels :: nat
  frame_rate :: nat
  length_ms :: nat

record segment =
  source :: audio
  slice_start :: int
  slice_end :: int

text \<open>
  What \<^verbatim>\<open>asr_model.transcribe\<close> returns: a list of hypotheses, each with a
  \<^verbatim>\<open>.text\<close>, or nothing at all.
\<close>

datatype hypothesis = Hypothesis (text_of: string)

datatype transcription = NoResult | Results "hypothesis list"

datatype content = Blank | Wav segment | Other_file

datatype msg =
    Loading_model
  | Model_loaded
  | File_not_found path
  | Processing string
  | Has_channels nat
  | Has_sample_rate nat
  | Total_length py_float
  | Splitting int int
  | Transcribing nat int py_float py_float
  | Full_transcription
  | Final_transcript string
  | Library_missing
  | Install_ffmpeg
  | Error_occurred exc
  | Cleaned_up

datatype call =
    From_pretrained
  | From_file path
  | Set_channels nat
  | Set_frame_rate nat
  | Named_temporary_file nat
  | Created path
  | Export segment path
  | Transcribe "path list"
  | Remove path

text \<open>
  The process state: the files on disk, the function attribute
  \<^verbatim>\<open>transcribe_audio.asr_model\<close>, what has been printed, and the library calls
  made so far (\<open>Created p\<close> records that a temporary file \<open>p\<close> came into being).
\<close>

record 'm world =
  files :: "path \<rightharpoonup> content"
  asr_model :: "'m option"
  stdout :: "msg list"
  calls :: "call list"

text \<open>The libraries. Each operation either raises or returns.\<close>

record 'm env =
  from_pretrained :: "exc + 'm"
  from_file :: "path \<Rightarrow> exc + audio"
  set_channels :: "audio \<Rightarrow> nat \<Rightarrow> exc + audio"
  set_frame_rate :: "audio \<Rightarrow> nat \<Rightarrow> exc + audio"
  named_temporary_file :: "(path \<rightharpoonup> content) \<Rightarrow> nat \<Rightarrow> exc + path"
  export :: "segment \<Rightarrow> path \<Rightarrow> exc option"
  os_remove :: "path \<Rightarrow> exc option"
  transcribe :: "'m \<Rightarrow> (path \<rightharpoonup> content) \<Rightarrow> path list \<Rightarrow> exc + transcription"

text \<open>The locals of one call that outlive an exception in the \<^verbatim>\<open>try\<close> block.\<close>

record 'm frame =
  world :: "'m world"
  temp_files :: "path list"
  all_transcriptions :: "string list"

definition print :: "msg \<Rightarrow> 'm world \<Rightarrow> 'm world" where
  "print m w = w\<lparr>stdout := stdout w @ [m]\<rparr>"

definition called :: "call \<Rightarrow> 'm world \<Rightarrow> 'm world" where
  "called c w = w\<lparr>calls := calls w @ [c]\<rparr>"

section \<open>The model provider (lines 22 to 28)\<close>

definition load_model :: "'m env \<Rightarrow> 'm world \<Rightarrow> (exc + 'm) \<times> 'm world" where
  "load_model env w =
     (case asr_model w of
        Some m \<Rightarrow> (Inr m, w)
      | None \<Rightarrow>
          (let w1 = called From_pretrained (print Loading_model w)
           in case from_pretrained env of
                Inl e \<Rightarrow> (Inl e, w1)
              | Inr m \<Rightarrow> (Inr m, print Model_loaded (w1\<lparr>asr_model := Some m\<rparr>))))"

section \<open>Normalisation (lines 44 to 51)\<close>

definition to_mono :: "'m env \<Rightarrow> audio \<Rightarrow> 'm world \<Rightarrow> (exc + audio) \<times> 'm world" where
  "to_mono env a w =
     (if 1 < channels a
      then (set_channels env a 1, called (Set_channels 1) (print (Has_channels (channels a)) w))
      else (Inr a, w))"

definition to_16k :: "'m env \<Rightarrow> audio \<Rightarrow> 'm world \<Rightarrow> (exc + audio) \<times> 'm world" where
  "to_16k env a w =
     (if frame_rate a \<noteq> 16000
      then (set_frame_rate env a 16000,
            called (Set_frame_rate 16000) (print (Has_sample_rate (frame_rate a)) w))
      else (Inr a, w))"

definition normalize :: "'m env \<Rightarrow> audio \<Rightarrow> 'm world \<Rightarrow> (exc + audio) \<times> 'm world" where
  "normalize env a w =
     (case to_mono env a w of
        (Inl e, w1) \<Rightarrow> (Inl e, w1)
      | (Inr a1, w1) \<Rightarrow> to_16k env a1 w1)"

section \<open>Segmentation (lines 54 to 66)\<close>

definition num_segments :: "int \<Rightarrow> int \<Rightarrow> exc + int" where
  "num_segments total_length_ms segment_length_ms =
     (case py_truediv total_length_ms segment_length_ms of
        Inl e \<Rightarrow> Inl e
      | Inr q \<Rightarrow> Inr (math_ceil q))"

definition segment_bounds :: "int \<Rightarrow> int \<Rightarrow> nat \<Rightarrow> int \<times> int" where
  "segment_bounds segment_length_ms total_length_ms i =
     (int i * segment_length_ms, min ((int i + 1) * segment_length_ms) total_length_ms)"

text \<open>
  The time windows the loop visits, in order: \<^verbatim>\<open>range(num_segments)\<close> is empty when
  the count is not positive.
\<close>

definition segmenter :: "int \<Rightarrow> nat \<Rightarrow> exc + (int \<times> int) list" where
  "segmenter segment_length_sec duration =
     (let segment_length_ms = segment_length_sec * 1000;
          total_length_ms = int duration
      in case num_segments total_length_ms segment_length_ms of
           Inl e \<Rightarrow> Inl e
         | Inr n \<Rightarrow> Inr (map (segment_bounds segment_length_ms total_length_ms) [0..<nat n]))"

section \<open>The inference loop (lines 63 to 84)\<close>

definition placeholder :: string where
  "placeholder = ''[Transcription Failed for Segment]''"

fun fragment_of :: "transcription \<Rightarrow> string" where
  "fragment_of NoResult = placeholder"
| "fragment_of (Results []) = placeholder"
| "fragment_of (Results (h # hs)) = text_of h"

definition segment_step ::
  "'m env \<Rightarrow> 'm \<Rightarrow> audio \<Rightarrow> int \<Rightarrow> int \<Rightarrow> int \<Rightarrow> nat \<Rightarrow> 'm frame \<Rightarrow> 'm frame outcome" where
  "segment_step env m a segment_length_ms total_length_ms n i fr =
     (let (start_time, end_time) = segment_bounds segment_length_ms total_length_ms i;
          seg = \<lparr>source = a, slice_start = start_time, slice_end = end_time\<rparr>;
          w0 = called (Named_temporary_file i) (world fr)
      in case named_temporary_file env (files w0) i of
           Inl e \<Rightarrow> Raised e (fr\<lparr>world := w0\<rparr>)
         | Inr p \<Rightarrow>
             (let w1 = called (Created p) (w0\<lparr>files := (files w0)(p \<mapsto> Blank)\<rparr>);
                  fr1 = fr\<lparr>world := w1, temp_files := temp_files fr @ [p]\<rparr>;
                  w2 = called (Export seg p) w1
              in case export env seg p of
                   Some e \<Rightarrow> Raised e (fr1\<lparr>world := w2\<rparr>)
                 | None \<Rightarrow>
                     (let w3 = w2\<lparr>files := (files w2)(p \<mapsto> Wav seg)\<rparr>
                      in case py_truediv start_time 1000 of
                           Inl e \<Rightarrow> Raised e (fr1\<lparr>world := w3\<rparr>)
                         | Inr s \<Rightarrow>
                        (case py_truediv end_time 1000 of
                           Inl e \<Rightarrow> Raised e (fr1\<lparr>world := w3\<rparr>)
                         | Inr t \<Rightarrow>
                             (let w4 = called (Transcribe [p]) (print (Transcribing (i + 1) n s t) w3)
                              in case transcribe env m (files w4) [p] of
                                   Inl e \<Rightarrow> Raised e (fr1\<lparr>world := w4\<rparr>)
                                 | Inr r \<Rightarrow>
                                     Completed (fr1\<lparr>world := w4,
                                       all_transcriptions :=
                                         all_transcriptions fr1 @ [fragment_of r]\<rparr>))))))"

fun segment_loop ::
  "'m env \<Rightarrow> 'm \<Rightarrow> audio \<Rightarrow> int \<Rightarrow> int \<Rightarrow> int \<Rightarrow> nat list \<Rightarrow> 'm frame \<Rightarrow> 'm frame outcome" where
  "segment_loop env m a segment_length_ms total_length_ms n [] fr = Completed fr"
| "segment_loop env m a segment_length_ms total_length_ms n (i # is) fr =
     (case segment_step env m a segment_length_ms total_length_ms n i fr of
        Raised e fr1 \<Rightarrow> Raised e fr1
      | Completed fr1 \<Rightarrow> segment_loop env m a segment_length_ms total_length_ms n is fr1)"

section \<open>The \<^verbatim>\<open>try\<close> block (lines 33 to 90)\<close>

text \<open>Lines 54 to 90: from the normalised buffer to the printed transcript.\<close>

definition transcribe_segments ::
  "'m env \<Rightarrow> 'm \<Rightarrow> audio \<Rightarrow> int \<Rightarrow> 'm frame \<Rightarrow> 'm frame outcome" where
  "transcribe_segments env m a segment_length_sec fr =
     (let segment_length_ms = segment_length_sec * 1000;
          total_length_ms = int (length_ms a)
      in case num_segments total_length_ms segment_length_ms of
           Inl e \<Rightarrow> Raised e fr
         | Inr n \<Rightarrow>
        (case py_truediv total_length_ms 1000 of
           Inl e \<Rightarrow> Raised e fr
         | Inr secs \<Rightarrow>
             (let w1 = print (Splitting n segment_length_sec) (print (Total_length secs) (world fr));
                  fr1 = fr\<lparr>world := w1, all_transcriptions := []\<rparr>
              in case segment_loop env m a segment_length_ms total_length_ms n [0..<nat n] fr1 of
                   Raised e fr2 \<Rightarrow> Raised e fr2
                 | Completed fr2 \<Rightarrow>
                     (let final_transcription = join '' '' (all_transcriptions fr2)
                      in Completed (fr2\<lparr>world :=
                           print (Final_transcript final_transcription)
                             (print Full_transcription (world fr2))\<rparr>)))))"

definition try_block :: "'m env \<Rightarrow> 'm \<Rightarrow> path \<Rightarrow> int \<Rightarrow> 'm frame \<Rightarrow> 'm frame outcome" where
  "try_block env m audio_path segment_length_sec fr =
     (if audio_path \<notin> dom (files (world fr))
      then Completed (fr\<lparr>world := print (File_not_found audio_path) (world fr)\<rparr>)
      else
        (let w1 = called (From_file audio_path) (print (Processing (basename audio_path)) (world fr))
         in case from_file env audio_path of
              Inl e \<Rightarrow> Raised e (fr\<lparr>world := w1\<rparr>)
            | Inr a0 \<Rightarrow>
                (case normalize env a0 w1 of
                   (Inl e, w2) \<Rightarrow> Raised e (fr\<lparr>world := w2\<rparr>)
                 | (Inr a, w2) \<Rightarrow>
                     transcribe_segments env m a segment_length_sec (fr\<lparr>world := w2\<rparr>))))"

section \<open>Handlers and cleanup (lines 92 to 103)\<close>

text \<open>
  The first handler takes \<^verbatim>\<open>FileNotFoundError\<close>, the second every other
  \<^verbatim>\<open>Exception\<close>; what is not an \<^verbatim>\<open>Exception\<close> passes both.
\<close>

definition handlers :: "'m frame outcome \<Rightarrow> 'm frame outcome" where
  "handlers r =
     (case r of
        Completed fr \<Rightarrow> Completed fr
      | Raised e fr \<Rightarrow>
          if e = FileNotFoundError
          then Completed (fr\<lparr>world := print Install_ffmpeg (print Library_missing (world fr))\<rparr>)
          else if is_exception e
          then Completed (fr\<lparr>world := print (Error_occurred e) (world fr)\<rparr>)
          else Raised e fr)"

text \<open>
  The disk is changed by this process only. \<^verbatim>\<open>os.path.exists\<close> tests membership;
  \<^verbatim>\<open>os.remove\<close> either removes the file or raises and leaves it. Nothing guards
  the call, so the loop stops at the first \<^verbatim>\<open>os.remove\<close> that raises, and that
  exception leaves the function. Otherwise the cleanup line is printed, and an exception that
  no handler took is raised again.
\<close>

fun remove_all :: "'m env \<Rightarrow> path list \<Rightarrow> 'm world \<Rightarrow> 'm world outcome" where
  "remove_all env [] w = Completed w"
| "remove_all env (p # ps) w =
     (if p \<in> dom (files w)
      then (case os_remove env p of
              Some e \<Rightarrow> Raised e (called (Remove p) w)
            | None \<Rightarrow> remove_all env ps (called (Remove p) (w\<lparr>files := (files w)(p := None)\<rparr>)))
      else remove_all env ps w)"

definition finally_block :: "'m env \<Rightarrow> 'm frame outcome \<Rightarrow> 'm world outcome" where
  "finally_block env r =
     (case remove_all env (temp_files (final r)) (world (final r)) of
        Raised e w \<Rightarrow> Raised e w
      | Completed w \<Rightarrow>
          (case r of
             Completed fr \<Rightarrow> Completed (print Cleaned_up w)
           | Raised e fr \<Rightarrow> Raised e (print Cleaned_up w)))"

section \<open>\<^verbatim>\<open>transcribe_audio\<close>\<close>

definition transcribe_audio :: "'m env \<Rightarrow> path \<Rightarrow> int \<Rightarrow> 'm world \<Rightarrow> 'm world outcome" where
  "transcribe_audio env audio_path segment_length_sec w =
     (case load_model env w of
        (Inl e, w1) \<Rightarrow> Raised e w1
      | (Inr m, w1) \<Rightarrow>
          finally_block env (handlers
            (try_block env m audio_path segment_length_sec
               \<lparr>world = w1, temp_files = [], all_transcriptions = []\<rparr>)))"

fun raised :: "'s outcome \<Rightarrow> exc option" where
  "raised (Completed s) = None"
| "raised (Raised e s) = Some e"

text \<open>
  A process that calls \<^verbatim>\<open>transcribe_audio\<close> several times, one call after the
  other, going on after a call that raised. The libraries may answer differently at each call.
\<close>

fun run_calls :: "('m env \<times> path \<times> int) list \<Rightarrow> 'm world \<Rightarrow> 'm world" where
  "run_calls [] w = w"
| "run_calls ((env, audio_path, segment_length_sec) # cs) w =
     run_calls cs (final (transcribe_audio env audio_path segment_length_sec w))"

section \<open>Test doubles\<close>

text \<open>
  Concrete libraries and a concrete disk, on which the theorems below are instantiated.
  The stand-in model answers by the start of the slice it is given: two results for the
  slice at 0 ms, none for the slice at 1000 ms, one for the slice at 2000 ms, and it raises
  on any later slice.
\<close>

definition demo_transcribe ::
  "nat \<Rightarrow> (path \<rightharpoonup> content) \<Rightarrow> path list \<Rightarrow> exc + transcription" where
  "demo_transcribe m fs ps =
     (case ps of
        [p] \<Rightarrow>
          (case fs p of
             Some (Wav s) \<Rightarrow>
               if slice_start s = 0 then Inr (Results [Hypothesis ''hello'', Hypothesis ''unused''])
               else if slice_start s = 1000 then Inr (Results [])
               else if slice_start s = 2000 then Inr (Results [Hypothesis ''world''])
               else Inl (OtherException ''CUDA out of memory'')
           | _ \<Rightarrow> Inl FileNotFoundError)
      | _ \<Rightarrow> Inr NoResult)"

definition demo_env :: "nat env" where
  "demo_env =
     \<lparr>from_pretrained = Inr 7,
      from_file = (\<lambda>p.
         if p = ''talk.wav'' then Inr \<lparr>channels = 2, frame_rate = 44100, length_ms = 2500\<rparr>
         else if p = ''long.wav'' then Inr \<lparr>channels = 1, frame_rate = 16000, length_ms = 3500\<rparr>
         else Inl (OtherException ''cannot decode'')),
      set_channels = (\<lambda>a n. Inr (a\<lparr>channels := n\<rparr>)),
      set_frame_rate = (\<lambda>a r. Inr (a\<lparr>frame_rate := r\<rparr>)),
      named_temporary_file = (\<lambda>fs i. Inr (''/tmp/tmp'' @ replicate i (CHR ''x'') @ ''.wav'')),
      export = (\<lambda>s p. None),
      os_remove = (\<lambda>p. None),
      transcribe = demo_transcribe\<rparr>"

text \<open>The same libraries on a machine where the model cannot be loaded.\<close>

definition no_gpu_env :: "nat env" where
  "no_gpu_env = demo_env\<lparr>from_pretrained := Inl (OtherException ''Found no NVIDIA driver'')\<rparr>"

text \<open>
  The same libraries where the second temporary file cannot be removed, and where the user
  interrupts the transcription.
\<close>

definition locked_env :: "nat env" where
  "locked_env = demo_env\<lparr>os_remove :=
     (\<lambda>p. if p = ''/tmp/tmpx.wav'' then Some (OtherException ''Permission denied'') else None)\<rparr>"

definition interrupted_env :: "nat env" where
  "interrupted_env = demo_env\<lparr>transcribe := (\<lambda>m fs ps. Inl (BaseException ''KeyboardInterrupt''))\<rparr>"

definition demo_world :: "nat world" where
  "demo_world =
     \<lparr>files = [''talk.wav'' \<mapsto> Other_file, ''long.wav'' \<mapsto> Other_file],
      asr_model = None, stdout = [], calls = []\<rparr>"

definition demo_audio :: audio where
  "demo_audio = \<lparr>channels = 1, frame_rate = 16000, length_ms = 2500\<rparr>"

definition demo_frame :: "nat frame" where
  "demo_frame = \<lparr>world = demo_world, temp_files = [], all_transcriptions = []\<rparr>"

text \<open>A frame at the end of a \<^verbatim>\<open>try\<close> block with one temporary file on disk.\<close>

definition leftover_frame :: "nat frame" where
  "leftover_frame =
     \<lparr>world = demo_world\<lparr>files := (files demo_world)(''/tmp/a.wav'' \<mapsto> Blank)\<rparr>,
      temp_files = [''/tmp/a.wav''], all_transcriptions = []\<rparr>"

section \<open>Basic facts\<close>

lemma print_simps [simp]:
  "files (print x w) = files w"
  "asr_model (print x w) = asr_model w"
  "calls (print x w) = calls w"
  "stdout (print x w) = stdout w @ [x]"
  by (simp_all add: print_def)

lemma called_simps [simp]:
  "files (called c w) = files w"
  "asr_model (called c w) = asr_model w"
  "calls (called c w) = calls w @ [c]"
  "stdout (called c w) = stdout w"
  by (simp_all add: called_def)

lemma files_load_model [simp]: "files (snd (load_model env w)) = files w"
  by (simp add: load_model_def Let_def split: option.splits sum.splits)

lemma stdout_remove_all [simp]: "stdout (final (remove_all env ps w)) = stdout w"
  by (induction ps arbitrary: w) (simp_all split: option.splits)

lemma asr_model_remove_all [simp]: "asr_model (final (remove_all env ps w)) = asr_model w"
  by (induction ps arbitrary: w) (simp_all split: option.splits)

lemma py_truediv_zero:
  "b \<noteq> 0 \<Longrightarrow> py_truediv 0 b = Inr \<lparr>negative = (b < 0), mantissa = 0, exponent = 0\<rparr>"
  by (simp add: py_truediv_def)

lemma num_segments_zero: "b \<noteq> 0 \<Longrightarrow> num_segments 0 b = Inr 0"
  by (simp add: num_segments_def py_truediv_zero math_ceil_def)

lemma num_segments_by_zero: "num_segments a 0 = Inl ZeroDivisionError"
  by (simp add: num_segments_def py_truediv_def)

lemma demo_quotients:
  "py_truediv 0 1000 = Inr \<lparr>negative = False, mantissa = 0, exponent = 0\<rparr>"
  "py_truediv 1000 1000 = Inr \<lparr>negative = False, mantissa = 2 ^ 52, exponent = - 52\<rparr>"
  "py_truediv 2000 1000 = Inr \<lparr>negative = False, mantissa = 2 ^ 52, exponent = - 51\<rparr>"
  "py_truediv 2500 1000 = Inr \<lparr>negative = False, mantissa = 5 * 2 ^ 50, exponent = - 51\<rparr>"
  "py_truediv 3000 1000 = Inr \<lparr>negative = False, mantissa = 3 * 2 ^ 51, exponent = - 51\<rparr>"
  "py_truediv 3500 1000 = Inr \<lparr>negative = False, mantissa = 7 * 2 ^ 50, exponent = - 51\<rparr>"
  "num_segments 2500 1000 = Inr 3"
  "num_segments 3500 1000 = Inr 4"
  by code_simp+

lemmas demo_defs =
  demo_env_def no_gpu_env_def locked_env_def interrupted_env_def demo_world_def demo_audio_def
  demo_frame_def leftover_frame_def demo_transcribe_def

section \<open>Normalisation\<close>

text \<open>
  Claim C8. A buffer that already has exactly one channel and a sample rate of exactly
  16000 Hz passes through normalisation untouched: the buffer comes back as it went in, and
  neither the output nor the record of library calls changes, so neither
  \<^verbatim>\<open>set_channels\<close> nor \<^verbatim>\<open>set_frame_rate\<close> is called. This holds whatever
  the libraries would have done.
\<close>

theorem normalize_is_noop_at_target_format:
  "channels a = 1 \<Longrightarrow> frame_rate a = 16000 \<Longrightarrow> normalize env a w = (Inr a, w)"
  by (simp add: normalize_def to_mono_def to_16k_def)

theorem normalize_is_noop_at_target_format_witness:
  "channels demo_audio = 1 \<and> frame_rate demo_audio = 16000
   \<and> normalize demo_env demo_audio demo_world = (Inr demo_audio, demo_world)"
proof -
  have c: "channels demo_audio = 1" and r: "frame_rate demo_audio = 16000"
    by (simp_all add: demo_audio_def)
  from normalize_is_noop_at_target_format [OF c r] c r show ?thesis by simp
qed

section \<open>Aggregation\<close>

lemma join_closed_form: "join sep (x # xs) = x @ concat (map (\<lambda>f. sep @ f) xs)"
  by (induction xs arbitrary: x) simp_all

lemma outcome_completed: "raised r = None \<Longrightarrow> r = Completed (final r)"
  by (cases r) simp_all


lemma transcribe_segments_prints_join:
  assumes "transcribe_segments env m a d fr = Completed fr'"
  shows "\<exists>out. stdout (world fr') =
           out @ [Full_transcription, Final_transcript (join '' '' (all_transcriptions fr'))]"
  using assms
  by (auto simp add: transcribe_segments_def Let_def split: sum.splits outcome.splits)

lemma demo_segments_run:
  "raised (transcribe_segments demo_env 7 demo_audio 1 demo_frame) = None"
  "all_transcriptions (final (transcribe_segments demo_env 7 demo_audio 1 demo_frame)) =
     [''hello'', ''[Transcription Failed for Segment]'', ''world'']"
  by (simp_all add: transcribe_segments_def segment_step_def segment_bounds_def demo_defs
      demo_quotients placeholder_def Let_def upt_rec)

text \<open>
  Claim C6. The final transcript is the first fragment followed by every later fragment in
  order, each preceded by exactly one space (and the empty string when there is no fragment);
  for the fragments \<open>hello\<close> and \<open>world\<close> it is \<open>hello world\<close>. When lines 54 to 90
  run to their end, the last two things printed are the header and this join of the
  fragments collected.
\<close>

theorem aggregator_joins_with_single_spaces:
  "join '' '' [] = []
   \<and> join '' '' (x # xs) = x @ concat (map (\<lambda>f. '' '' @ f) xs)
   \<and> join '' '' [''hello'', ''world''] = ''hello world''
   \<and> (transcribe_segments env m a d fr = Completed fr' \<longrightarrow>
        (\<exists>out. stdout (world fr') =
           out @ [Full_transcription, Final_transcript (join '' '' (all_transcriptions fr'))]))"
  using join_closed_form [of "'' ''" x xs] transcribe_segments_prints_join [of env m a d fr fr']
  by simp

theorem aggregator_joins_with_single_spaces_witness:
  "raised (transcribe_segments demo_env 7 demo_audio 1 demo_frame) = None
   \<and> last (stdout (world (final (transcribe_segments demo_env 7 demo_audio 1 demo_frame)))) =
       Final_transcript ''hello [Transcription Failed for Segment] world''"
proof -
  let ?r = "transcribe_segments demo_env 7 demo_audio 1 demo_frame"
  have c: "?r = Completed (final ?r)"
    by (rule outcome_completed) (rule demo_segments_run)
  from aggregator_joins_with_single_spaces [of _ _ demo_env 7 demo_audio 1 demo_frame "final ?r"] c
  obtain out where "stdout (world (final ?r)) =
      out @ [Full_transcription, Final_transcript (join '' '' (all_transcriptions (final ?r)))]"
    by blast
  then show ?thesis
    by (simp add: demo_segments_run)
qed

section \<open>An empty buffer\<close>

text \<open>
  Claim C5. For a buffer of 0 ms and a positive segment duration the segmenter yields no
  segment, the loop body never runs, and lines 54 to 90 print the two progress lines, the
  header and the empty string as final transcript.
\<close>

theorem empty_audio_gives_empty_transcript:
  "length_ms a = 0 \<Longrightarrow> 0 < segment_length_sec \<Longrightarrow>
     segmenter segment_length_sec (length_ms a) = Inr []
     \<and> transcribe_segments env m a segment_length_sec fr =
         Completed (fr\<lparr>world :=
           print (Final_transcript [])
             (print Full_transcription
               (print (Splitting 0 segment_length_sec)
                 (print (Total_length \<lparr>negative = False, mantissa = 0, exponent = 0\<rparr>)
                   (world fr)))),
           all_transcriptions := []\<rparr>)"
  by (simp add: segmenter_def transcribe_segments_def num_segments_zero py_truediv_zero)

theorem empty_audio_gives_empty_transcript_witness:
  "length_ms (demo_audio\<lparr>length_ms := 0\<rparr>) = 0 \<and> (0::int) < 60
   \<and> segmenter 60 0 = Inr []
   \<and> last (stdout (world (final
        (transcribe_segments demo_env 7 (demo_audio\<lparr>length_ms := 0\<rparr>) 60 demo_frame)))) =
       Final_transcript []"
  using empty_audio_gives_empty_transcript [of "demo_audio\<lparr>length_ms := 0\<rparr>" 60 demo_env 7 demo_frame]
  by simp

section \<open>Errors\<close>

lemma load_model_available:
  assumes "asr_model w = Some m \<or> (asr_model w = None \<and> from_pretrained env = Inr m)"
  shows "load_model env w = (Inr m, snd (load_model env w))"
    and "calls (snd (load_model env w)) =
           (if asr_model w = None then calls w @ [From_pretrained] else calls w)"
  using assms by (auto simp add: load_model_def Let_def)





lemma files_normalize [simp]: "files (snd (normalize env a w)) = files w"
  by (simp add: normalize_def to_mono_def to_16k_def split: sum.splits)

lemma calls_normalize:
  "set (calls (snd (normalize env a w))) \<subseteq> set (calls w) \<union> {Set_channels 1, Set_frame_rate 16000}"
  by (auto simp add: normalize_def to_mono_def to_16k_def split: sum.splits if_splits)

lemma demo_long_run_raises:
  "raised (try_block demo_env 7 ''long.wav'' 1
     \<lparr>world = snd (load_model demo_env demo_world), temp_files = [], all_transcriptions = []\<rparr>) =
   Some (OtherException ''CUDA out of memory'')"
  by (simp add: try_block_def load_model_def normalize_def to_mono_def to_16k_def
      transcribe_segments_def segment_step_def segment_bounds_def demo_defs
      demo_quotients Let_def upt_rec)




section \<open>A missing input file\<close>

text \<open>
  Claim C7, as the script has it. When the model is at hand (cached, or loaded now without
  error) and the path is not on disk, the call prints the file-not-found line and the
  cleanup line and returns normally. Apart from loading the model when it was not cached, no
  library is called: nothing is decoded, segmented or transcribed.
\<close>

theorem missing_file_is_reported:
  "asr_model w = Some m \<or> (asr_model w = None \<and> from_pretrained env = Inr m) \<Longrightarrow>
   audio_path \<notin> dom (files w) \<Longrightarrow>
     transcribe_audio env audio_path segment_length_sec w =
       Completed (print Cleaned_up (print (File_not_found audio_path) (snd (load_model env w))))
     \<and> calls (snd (load_model env w)) =
         (if asr_model w = None then calls w @ [From_pretrained] else calls w)"
proof -
  assume a: "asr_model w = Some m \<or> (asr_model w = None \<and> from_pretrained env = Inr m)"
    and p: "audio_path \<notin> dom (files w)"
  have l: "load_model env w = (Inr m, snd (load_model env w))"
    by (rule load_model_available [OF a])
  have "transcribe_audio env audio_path segment_length_sec w =
      Completed (print Cleaned_up (print (File_not_found audio_path) (snd (load_model env w))))"
    using p
    by (subst transcribe_audio_def, subst l) (simp add: try_block_def handlers_def finally_block_def)
  with load_model_available(2) [OF a] show ?thesis by simp
qed

theorem missing_file_is_reported_witness:
  "(asr_model demo_world = Some 7 \<or> (asr_model demo_world = None \<and> from_pretrained demo_env = Inr 7))
   \<and> ''missing.wav'' \<notin> dom (files demo_world)
   \<and> raised (transcribe_audio demo_env ''missing.wav'' 60 demo_world) = None
   \<and> stdout (final (transcribe_audio demo_env ''missing.wav'' 60 demo_world)) =
       [Loading_model, Model_loaded, File_not_found ''missing.wav'', Cleaned_up]
   \<and> calls (final (transcribe_audio demo_env ''missing.wav'' 60 demo_world)) = [From_pretrained]"
proof -
  have a: "asr_model demo_world = Some 7
      \<or> (asr_model demo_world = None \<and> from_pretrained demo_env = Inr 7)"
    and p: "''missing.wav'' \<notin> dom (files demo_world)"
    by (simp_all add: demo_defs)
  from missing_file_is_reported [OF a p, of 60] a p show ?thesis
    by (simp add: load_model_def demo_defs Let_def)
qed

text \<open>
  The claim as written fails: when the model is not cached and cannot be loaded, a call with
  a missing path raises before the path is looked at, and prints no file-not-found line.
\<close>

theorem missing_file_raises_without_model:
  "''missing.wav'' \<notin> dom (files demo_world)
   \<and> raised (transcribe_audio no_gpu_env ''missing.wav'' 60 demo_world) =
       Some (OtherException ''Found no NVIDIA driver'')
   \<and> File_not_found ''missing.wav''
       \<notin> set (stdout (final (transcribe_audio no_gpu_env ''missing.wav'' 60 demo_world)))"
  by (simp add: transcribe_audio_def load_model_def demo_defs Let_def)

section \<open>A segment length of zero\<close>

text \<open>
  Claim C10, as the script has it. When the model is at hand (cached, or loaded now without
  error), the file exists, and decoding and normalisation succeed, a segment length of 0
  makes the segment count divide by zero. The generic handler prints the error, the cleanup
  line follows, and the call returns normally. The disk is as it was and the only library
  calls are the model load (when not cached), the decoding and the two conversions: no
  temporary file is created and nothing is transcribed.
\<close>

theorem zero_segment_length_is_reported:
  "asr_model w = Some m \<or> (asr_model w = None \<and> from_pretrained env = Inr m) \<Longrightarrow>
   audio_path \<in> dom (files w) \<Longrightarrow>
   from_file env audio_path = Inr a0 \<Longrightarrow>
   normalize env a0
     (called (From_file audio_path)
       (print (Processing (basename audio_path)) (snd (load_model env w)))) = (Inr a, w2) \<Longrightarrow>
     num_segments (int (length_ms a)) (0 * 1000) = Inl ZeroDivisionError
     \<and> transcribe_audio env audio_path 0 w =
         Completed (print Cleaned_up (print (Error_occurred ZeroDivisionError) w2))
     \<and> files w2 = files w
     \<and> set (calls w2) \<subseteq> set (calls w) \<union>
         {From_pretrained, From_file audio_path, Set_channels 1, Set_frame_rate 16000}"
proof -
  assume a: "asr_model w = Some m \<or> (asr_model w = None \<and> from_pretrained env = Inr m)"
    and p: "audio_path \<in> dom (files w)"
    and d: "from_file env audio_path = Inr a0"
    and n: "normalize env a0
     (called (From_file audio_path)
       (print (Processing (basename audio_path)) (snd (load_model env w)))) = (Inr a, w2)"
  let ?w1 = "snd (load_model env w)"
  let ?w1' = "called (From_file audio_path) (print (Processing (basename audio_path)) ?w1)"
  have l: "load_model env w = (Inr m, ?w1)"
    by (rule load_model_available [OF a])
  have w2: "w2 = snd (normalize env a0 ?w1')"
    using n by simp
  have "transcribe_audio env audio_path 0 w =
      Completed (print Cleaned_up (print (Error_occurred ZeroDivisionError) w2))"
    using p d n
    by (subst transcribe_audio_def, subst l)
      (simp add: try_block_def handlers_def finally_block_def transcribe_segments_def
        num_segments_by_zero)
  moreover have "files w2 = files w"
    by (simp add: w2)
  moreover have "set (calls w2) \<subseteq> set (calls w) \<union>
      {From_pretrained, From_file audio_path, Set_channels 1, Set_frame_rate 16000}"
    using calls_normalize [of env a0 ?w1'] load_model_available(2) [OF a]
    by (auto simp add: w2 split: if_splits)
  ultimately show ?thesis
    by (simp add: num_segments_by_zero)
qed

theorem zero_segment_length_is_reported_witness:
  "(asr_model demo_world = Some 7
      \<or> (asr_model demo_world = None \<and> from_pretrained demo_env = Inr 7))
   \<and> ''talk.wav'' \<in> dom (files demo_world)
   \<and> from_file demo_env ''talk.wav'' = Inr \<lparr>channels = 2, frame_rate = 44100, length_ms = 2500\<rparr>
   \<and> fst (normalize demo_env \<lparr>channels = 2, frame_rate = 44100, length_ms = 2500\<rparr>
        (called (From_file ''talk.wav'')
          (print (Processing (basename ''talk.wav'')) (snd (load_model demo_env demo_world))))) =
       Inr demo_audio
   \<and> raised (transcribe_audio demo_env ''talk.wav'' 0 demo_world) = None
   \<and> Error_occurred ZeroDivisionError
       \<in> set (stdout (final (transcribe_audio demo_env ''talk.wav'' 0 demo_world)))
   \<and> files (final (transcribe_audio demo_env ''talk.wav'' 0 demo_world)) = files demo_world"
proof -
  let ?a0 = "\<lparr>channels = 2, frame_rate = 44100, length_ms = 2500\<rparr>"
  let ?w1' = "called (From_file ''talk.wav'')
    (print (Processing (basename ''talk.wav'')) (snd (load_model demo_env demo_world)))"
  have a: "asr_model demo_world = Some 7
      \<or> (asr_model demo_world = None \<and> from_pretrained demo_env = Inr 7)"
    and p: "''talk.wav'' \<in> dom (files demo_world)"
    and d: "from_file demo_env ''talk.wav'' = Inr ?a0"
    by (simp_all add: demo_defs)
  have f: "fst (normalize demo_env ?a0 ?w1') = Inr demo_audio"
    by (simp add: normalize_def to_mono_def to_16k_def demo_defs)
  then have n: "normalize demo_env ?a0 ?w1' = (Inr demo_audio, snd (normalize demo_env ?a0 ?w1'))"
    by (metis prod.collapse)
  from zero_segment_length_is_reported [OF a p d n] a p d f show ?thesis
    by simp
qed

text \<open>
  The claim as written fails: when the model is not cached and cannot be loaded, the call
  raises before the file is decoded; the division is never reached and no error line is
  printed.
\<close>

theorem zero_segment_length_raises_without_model:
  "''talk.wav'' \<in> dom (files demo_world)
   \<and> from_file no_gpu_env ''talk.wav'' = Inr \<lparr>channels = 2, frame_rate = 44100, length_ms = 2500\<rparr>
   \<and> raised (transcribe_audio no_gpu_env ''talk.wav'' 0 demo_world) =
       Some (OtherException ''Found no NVIDIA driver'')
   \<and> Error_occurred ZeroDivisionError
       \<notin> set (stdout (final (transcribe_audio no_gpu_env ''talk.wav'' 0 demo_world)))"
  by (simp add: transcribe_audio_def load_model_def demo_defs Let_def)

section \<open>What the \<^verbatim>\<open>try\<close> block and the cleanup leave untouched\<close>

lemma handlers_fields [simp]:
  "files (world (final (handlers r))) = files (world (final r))"
  "calls (world (final (handlers r))) = calls (world (final r))"
  "asr_model (world (final (handlers r))) = asr_model (world (final r))"
  "temp_files (final (handlers r)) = temp_files (final r)"
  by (cases r; simp add: handlers_def)+

lemma loads_remove_all [simp]:
  "count_list (calls (final (remove_all env ps w))) From_pretrained =
     count_list (calls w) From_pretrained"
  by (induction ps arbitrary: w) (simp_all split: option.splits)

lemma finally_block_fields:
  "files (final (finally_block env r)) =
     files (final (remove_all env (temp_files (final r)) (world (final r))))"
  "calls (final (finally_block env r)) =
     calls (final (remove_all env (temp_files (final r)) (world (final r))))"
  "asr_model (final (finally_block env r)) = asr_model (world (final r))"
  by (cases "remove_all env (temp_files (final r)) (world (final r))"; cases r;
      simp add: finally_block_def;
      metis asr_model_remove_all final.simps)+

lemma normalize_keeps_model:
  "asr_model (snd (normalize env a w)) = asr_model w
   \<and> count_list (calls (snd (normalize env a w))) From_pretrained =
       count_list (calls w) From_pretrained"
  by (simp add: normalize_def to_mono_def to_16k_def split: sum.splits)

lemma segment_step_keeps_model:
  "asr_model (world (final (segment_step env m a s t n i fr))) = asr_model (world fr)
   \<and> count_list (calls (world (final (segment_step env m a s t n i fr)))) From_pretrained =
       count_list (calls (world fr)) From_pretrained"
  by (simp add: segment_step_def Let_def split: sum.splits option.splits prod.splits)

lemma segment_loop_keeps_model:
  "asr_model (world (final (segment_loop env m a s t n is fr))) = asr_model (world fr)
   \<and> count_list (calls (world (final (segment_loop env m a s t n is fr)))) From_pretrained =
       count_list (calls (world fr)) From_pretrained"
proof (induction "is" arbitrary: fr)
  case Nil
  show ?case by simp
next
  case (Cons i "is")
  show ?case
  proof (cases "segment_step env m a s t n i fr")
    case (Completed fr1)
    with Cons [of fr1] segment_step_keeps_model [of env m a s t n i fr] show ?thesis
      by simp
  next
    case (Raised e fr1)
    with segment_step_keeps_model [of env m a s t n i fr] show ?thesis
      by simp
  qed
qed

lemma transcribe_segments_keeps_model:
  "asr_model (world (final (transcribe_segments env m a d fr))) = asr_model (world fr)
   \<and> count_list (calls (world (final (transcribe_segments env m a d fr)))) From_pretrained =
       count_list (calls (world fr)) From_pretrained"
proof (cases "num_segments (int (length_ms a)) (d * 1000)")
  case (Inl e)
  then show ?thesis by (simp add: transcribe_segments_def)
next
  case n: (Inr n)
  show ?thesis
  proof (cases "py_truediv (int (length_ms a)) 1000")
    case (Inl e)
    with n show ?thesis by (simp add: transcribe_segments_def)
  next
    case (Inr secs)
    let ?fr1 = "fr\<lparr>world := print (Splitting n d) (print (Total_length secs) (world fr)),
      all_transcriptions := []\<rparr>"
    from segment_loop_keeps_model [of env m a "d * 1000" "int (length_ms a)" n "[0..<nat n]" ?fr1]
      n Inr show ?thesis
      by (cases "segment_loop env m a (d * 1000) (int (length_ms a)) n [0..<nat n] ?fr1")
        (simp_all add: transcribe_segments_def Let_def)
  qed
qed

lemma try_block_keeps_model:
  "asr_model (world (final (try_block env m p d fr))) = asr_model (world fr)
   \<and> count_list (calls (world (final (try_block env m p d fr)))) From_pretrained =
       count_list (calls (world fr)) From_pretrained"
proof (cases "p \<in> dom (files (world fr))")
  case False
  then show ?thesis by (simp add: try_block_def)
next
  case True
  let ?w1 = "called (From_file p) (print (Processing (basename p)) (world fr))"
  show ?thesis
  proof (cases "from_file env p")
    case (Inl e)
    with True show ?thesis by (simp add: try_block_def Let_def)
  next
    case (Inr a0)
    obtain r w2 where nz: "normalize env a0 ?w1 = (r, w2)"
      by (cases "normalize env a0 ?w1")
    with normalize_keeps_model [of env a0 ?w1]
    have k: "asr_model w2 = asr_model (world fr)"
      "count_list (calls w2) From_pretrained = count_list (calls (world fr)) From_pretrained"
      by simp_all
    show ?thesis
    proof (cases r)
      case (Inl e)
      with True Inr nz k show ?thesis by (simp add: try_block_def Let_def)
    next
      case a: (Inr a)
      from transcribe_segments_keeps_model [of env m a d "fr\<lparr>world := w2\<rparr>"] True Inr nz a k
      show ?thesis by (simp add: try_block_def Let_def)
    qed
  qed
qed

lemma cleanup_keeps_model:
  "asr_model (final (finally_block env (handlers (try_block env m p d fr)))) = asr_model (world fr)"
  "count_list (calls (final (finally_block env (handlers (try_block env m p d fr)))))
     From_pretrained = count_list (calls (world fr)) From_pretrained"
  using try_block_keeps_model [of env m p d fr]
  by (simp_all add: finally_block_fields)

lemma call_keeps_model:
  assumes "asr_model w = Some m"
  shows "transcribe_audio env p d w =
      finally_block env (handlers
        (try_block env m p d \<lparr>world = w, temp_files = [], all_transcriptions = []\<rparr>))"
    and "asr_model (final (transcribe_audio env p d w)) = Some m"
    and "count_list (calls (final (transcribe_audio env p d w))) From_pretrained =
      count_list (calls w) From_pretrained"
proof -
  let ?fr0 = "\<lparr>world = w, temp_files = [], all_transcriptions = []\<rparr>"
  show c: "transcribe_audio env p d w = finally_block env (handlers (try_block env m p d ?fr0))"
    using assms by (simp add: transcribe_audio_def load_model_def)
  from cleanup_keeps_model [of env m p d ?fr0] assms
  show "asr_model (final (transcribe_audio env p d w)) = Some m"
    and "count_list (calls (final (transcribe_audio env p d w))) From_pretrained =
      count_list (calls w) From_pretrained"
    by (simp_all add: c)
qed

lemma run_calls_keeps_model:
  "asr_model w = Some m \<Longrightarrow>
     asr_model (run_calls cs w) = Some m
     \<and> count_list (calls (run_calls cs w)) From_pretrained = count_list (calls w) From_pretrained"
proof (induction cs arbitrary: w)
  case Nil
  then show ?case by simp
next
  case (Cons c cs)
  obtain env p d where c: "c = (env, p, d)"
    by (cases c)
  from Cons.IH [of "final (transcribe_audio env p d w)"] call_keeps_model(2,3) [OF Cons.prems]
  show ?case by (simp add: c)
qed

lemma first_call_loads:
  assumes "asr_model w = None"
  shows "count_list (calls (final (transcribe_audio env p d w))) From_pretrained =
      count_list (calls w) From_pretrained + 1"
    and "from_pretrained env = Inr m \<Longrightarrow> asr_model (final (transcribe_audio env p d w)) = Some m"
proof -
  let ?w1 = "called From_pretrained (print Loading_model w)"
  show "count_list (calls (final (transcribe_audio env p d w))) From_pretrained =
      count_list (calls w) From_pretrained + 1"
  proof (cases "from_pretrained env")
    case (Inl e)
    with assms show ?thesis
      by (simp add: transcribe_audio_def load_model_def Let_def)
  next
    case (Inr m')
    let ?fr0 = "\<lparr>world = print Model_loaded (?w1\<lparr>asr_model := Some m'\<rparr>), temp_files = [],
      all_transcriptions = []\<rparr>"
    from cleanup_keeps_model(2) [of env m' p d ?fr0] assms Inr show ?thesis
      by (simp add: transcribe_audio_def load_model_def Let_def)
  qed
  assume "from_pretrained env = Inr m"
  let ?fr0 = "\<lparr>world = print Model_loaded (?w1\<lparr>asr_model := Some m\<rparr>), temp_files = [],
    all_transcriptions = []\<rparr>"
  from cleanup_keeps_model(1) [of env m p d ?fr0] assms \<open>from_pretrained env = Inr m\<close>
  show "asr_model (final (transcribe_audio env p d w)) = Some m"
    by (simp add: transcribe_audio_def load_model_def Let_def)
qed

section \<open>The model provider\<close>

text \<open>
  Claim C9. A call made while no model is cached calls the loader exactly once. If that
  load succeeds, the model is cached, and in every later call of the same process, whatever
  its arguments and whatever the libraries would answer, the loader is not called again:
  over the whole sequence of calls it has been called once, and the cached model is still
  the one loaded first. A call that finds a cached model runs its \<^verbatim>\<open>try\<close> block on
  that model.
\<close>

theorem model_is_loaded_once:
  "(asr_model w = None \<longrightarrow>
      count_list (calls (final (transcribe_audio env p d w))) From_pretrained =
        count_list (calls w) From_pretrained + 1)
   \<and> (asr_model w = None \<and> from_pretrained env = Inr m \<longrightarrow>
        asr_model (run_calls ((env, p, d) # cs) w) = Some m
        \<and> count_list (calls (run_calls ((env, p, d) # cs) w)) From_pretrained =
            count_list (calls w) From_pretrained + 1)
   \<and> (asr_model w = Some m \<longrightarrow>
        asr_model (run_calls cs w) = Some m
        \<and> count_list (calls (run_calls cs w)) From_pretrained =
            count_list (calls w) From_pretrained
        \<and> transcribe_audio env p d w =
            finally_block env (handlers
              (try_block env m p d \<lparr>world = w, temp_files = [], all_transcriptions = []\<rparr>)))"
proof (intro conjI impI)
  assume "asr_model w = None"
  then show "count_list (calls (final (transcribe_audio env p d w))) From_pretrained =
      count_list (calls w) From_pretrained + 1"
    by (rule first_call_loads(1))
next
  assume a: "asr_model w = None \<and> from_pretrained env = Inr m"
  let ?w' = "final (transcribe_audio env p d w)"
  from a have m: "asr_model ?w' = Some m"
    by (simp add: first_call_loads(2))
  from a have c: "count_list (calls ?w') From_pretrained = count_list (calls w) From_pretrained + 1"
    by (simp add: first_call_loads(1))
  from run_calls_keeps_model [OF m, of cs] c
  show "asr_model (run_calls ((env, p, d) # cs) w) = Some m"
    and "count_list (calls (run_calls ((env, p, d) # cs) w)) From_pretrained =
      count_list (calls w) From_pretrained + 1"
    by simp_all
next
  assume s: "asr_model w = Some m"
  from run_calls_keeps_model [OF s, of cs]
  show "asr_model (run_calls cs w) = Some m"
    and "count_list (calls (run_calls cs w)) From_pretrained = count_list (calls w) From_pretrained"
    by simp_all
  from s show "transcribe_audio env p d w =
      finally_block env (handlers
        (try_block env m p d \<lparr>world = w, temp_files = [], all_transcriptions = []\<rparr>))"
    by (rule call_keeps_model(1))
qed

theorem model_is_loaded_once_witness:
  "asr_model demo_world = None \<and> from_pretrained demo_env = Inr 7
   \<and> count_list (calls demo_world) From_pretrained = 0
   \<and> asr_model (run_calls
        [(demo_env, ''talk.wav'', 1), (no_gpu_env, ''long.wav'', 1), (demo_env, ''missing.wav'', 60)]
        demo_world) = Some 7
   \<and> count_list (calls (run_calls
        [(demo_env, ''talk.wav'', 1), (no_gpu_env, ''long.wav'', 1), (demo_env, ''missing.wav'', 60)]
        demo_world)) From_pretrained = 1"
proof -
  have h: "asr_model demo_world = None" "from_pretrained demo_env = Inr 7"
    "count_list (calls demo_world) From_pretrained = 0"
    by (simp_all add: demo_defs)
  from model_is_loaded_once [of demo_world demo_env "''talk.wav''" 1 7
      "[(no_gpu_env, ''long.wav'', 1), (demo_env, ''missing.wav'', 60)]"] h
  show ?thesis by simp
qed

section \<open>Temporary files\<close>

lemma files_remove_all:
  "\<forall>p \<in> set ps. os_remove env p = None \<Longrightarrow>
     files (final (remove_all env ps w)) = (\<lambda>q. if q \<in> set ps then None else files w q)"
  by (induction ps arbitrary: w) (auto simp add: fun_eq_iff)

lemma created_remove_all [simp]:
  "Created q \<in> set (calls (final (remove_all env ps w))) \<longleftrightarrow> Created q \<in> set (calls w)"
  by (induction ps arbitrary: w) (simp_all split: option.splits)

lemma segment_step_registers:
  "named_temporary_file env (files (world fr)) i = Inr p \<Longrightarrow>
     p \<in> set (temp_files (final (segment_step env m a s t n i fr)))"
  by (simp add: segment_step_def Let_def split: sum.splits option.splits prod.splits)

lemma segment_step_tracks:
  "set (temp_files fr) \<subseteq> set (temp_files (final (segment_step env m a s t n i fr)))
   \<and> dom (files (world (final (segment_step env m a s t n i fr)))) \<subseteq>
       dom (files (world fr)) \<union> set (temp_files (final (segment_step env m a s t n i fr)))
   \<and> (\<forall>q. Created q \<in> set (calls (world (final (segment_step env m a s t n i fr)))) \<longrightarrow>
         Created q \<in> set (calls (world fr))
         \<or> q \<in> set (temp_files (final (segment_step env m a s t n i fr))))"
  by (auto simp add: segment_step_def Let_def split: sum.splits option.splits prod.splits)

lemma segment_loop_tracks:
  "set (temp_files fr) \<subseteq> set (temp_files (final (segment_loop env m a s t n is fr)))
   \<and> dom (files (world (final (segment_loop env m a s t n is fr)))) \<subseteq>
       dom (files (world fr)) \<union> set (temp_files (final (segment_loop env m a s t n is fr)))
   \<and> (\<forall>q. Created q \<in> set (calls (world (final (segment_loop env m a s t n is fr)))) \<longrightarrow>
         Created q \<in> set (calls (world fr))
         \<or> q \<in> set (temp_files (final (segment_loop env m a s t n is fr))))"
proof (induction "is" arbitrary: fr)
  case Nil
  show ?case by simp
next
  case (Cons i "is")
  show ?case
  proof (cases "segment_step env m a s t n i fr")
    case (Completed fr1)
    with segment_step_tracks [of fr env m a s t n i]
    have 1: "set (temp_files fr) \<subseteq> set (temp_files fr1)"
      and 2: "dom (files (world fr1)) \<subseteq> dom (files (world fr)) \<union> set (temp_files fr1)"
      and 3: "\<And>q. Created q \<in> set (calls (world fr1)) \<Longrightarrow>
        Created q \<in> set (calls (world fr)) \<or> q \<in> set (temp_files fr1)"
      by simp_all
    let ?fr2 = "final (segment_loop env m a s t n is fr1)"
    from Cons [of fr1]
    have 4: "set (temp_files fr1) \<subseteq> set (temp_files ?fr2)"
      and 5: "dom (files (world ?fr2)) \<subseteq> dom (files (world fr1)) \<union> set (temp_files ?fr2)"
      and 6: "\<And>q. Created q \<in> set (calls (world ?fr2)) \<Longrightarrow>
        Created q \<in> set (calls (world fr1)) \<or> q \<in> set (temp_files ?fr2)"
      by simp_all
    have e: "final (segment_loop env m a s t n (i # is) fr) = ?fr2"
      using Completed by simp
    show ?thesis
      unfolding e using 1 2 3 4 5 6 by blast
  next
    case (Raised e fr1)
    with segment_step_tracks [of fr env m a s t n i] show ?thesis
      by simp
  qed
qed

lemma transcribe_segments_tracks:
  "set (temp_files fr) \<subseteq> set (temp_files (final (transcribe_segments env m a d fr)))
   \<and> dom (files (world (final (transcribe_segments env m a d fr)))) \<subseteq>
       dom (files (world fr)) \<union> set (temp_files (final (transcribe_segments env m a d fr)))
   \<and> (\<forall>q. Created q \<in> set (calls (world (final (transcribe_segments env m a d fr)))) \<longrightarrow>
         Created q \<in> set (calls (world fr))
         \<or> q \<in> set (temp_files (final (transcribe_segments env m a d fr))))"
proof (cases "num_segments (int (length_ms a)) (d * 1000)")
  case (Inl e)
  then show ?thesis by (simp add: transcribe_segments_def)
next
  case n: (Inr n)
  show ?thesis
  proof (cases "py_truediv (int (length_ms a)) 1000")
    case (Inl e)
    with n show ?thesis by (simp add: transcribe_segments_def)
  next
    case (Inr secs)
    let ?fr1 = "fr\<lparr>world := print (Splitting n d) (print (Total_length secs) (world fr)),
      all_transcriptions := []\<rparr>"
    from segment_loop_tracks [of ?fr1 env m a "d * 1000" "int (length_ms a)" n "[0..<nat n]"]
      n Inr show ?thesis
      by (cases "segment_loop env m a (d * 1000) (int (length_ms a)) n [0..<nat n] ?fr1")
        (simp_all add: transcribe_segments_def Let_def)
  qed
qed

lemma created_normalize:
  "Created q \<in> set (calls (snd (normalize env a w))) \<longleftrightarrow> Created q \<in> set (calls w)"
  by (simp add: normalize_def to_mono_def to_16k_def split: sum.splits)

lemma try_block_tracks:
  "set (temp_files fr) \<subseteq> set (temp_files (final (try_block env m p d fr)))
   \<and> dom (files (world (final (try_block env m p d fr)))) \<subseteq>
       dom (files (world fr)) \<union> set (temp_files (final (try_block env m p d fr)))
   \<and> (\<forall>q. Created q \<in> set (calls (world (final (try_block env m p d fr)))) \<longrightarrow>
         Created q \<in> set (calls (world fr))
         \<or> q \<in> set (temp_files (final (try_block env m p d fr))))"
proof (cases "p \<in> dom (files (world fr))")
  case False
  then show ?thesis by (simp add: try_block_def)
next
  case True
  let ?w1 = "called (From_file p) (print (Processing (basename p)) (world fr))"
  show ?thesis
  proof (cases "from_file env p")
    case (Inl e)
    with True show ?thesis by (simp add: try_block_def Let_def)
  next
    case (Inr a0)
    obtain r w2 where nz: "normalize env a0 ?w1 = (r, w2)"
      by (cases "normalize env a0 ?w1")
    with files_normalize [of env a0 ?w1] created_normalize [of _ env a0 ?w1]
    have k: "files w2 = files (world fr)"
      "\<And>q. Created q \<in> set (calls w2) \<longleftrightarrow> Created q \<in> set (calls (world fr))"
      by simp_all
    show ?thesis
    proof (cases r)
      case (Inl e)
      with True Inr nz k show ?thesis by (simp add: try_block_def Let_def)
    next
      case a: (Inr a)
      from transcribe_segments_tracks [of "fr\<lparr>world := w2\<rparr>" env m a d] True Inr nz a k
      show ?thesis by (simp add: try_block_def Let_def)
    qed
  qed
qed

lemma finally_block_removes:
  "\<forall>p \<in> set (temp_files (final r)). os_remove env p = None \<Longrightarrow>
     p \<in> set (temp_files (final r)) \<Longrightarrow> p \<notin> dom (files (final (finally_block env r)))"
  by (simp add: finally_block_fields files_remove_all dom_def)

lemma call_leaves_no_file:
  assumes "\<forall>p. os_remove env p = None"
  shows "dom (files (final (transcribe_audio env p d w))) \<subseteq> dom (files w)"
    and "Created q \<in> set (calls (final (transcribe_audio env p d w))) \<Longrightarrow>
      Created q \<in> set (calls w) \<or> q \<notin> dom (files (final (transcribe_audio env p d w)))"
proof -
  obtain r w1 where l: "load_model env w = (r, w1)"
    by (cases "load_model env w")
  have f: "files w1 = files w"
    using files_load_model [of env w] l by simp
  have c: "Created q \<in> set (calls w1) \<longleftrightarrow> Created q \<in> set (calls w)" for q
    using l by (auto simp add: load_model_def Let_def split: option.splits sum.splits)
  have "dom (files (final (transcribe_audio env p d w))) \<subseteq> dom (files w)
      \<and> (Created q \<in> set (calls (final (transcribe_audio env p d w))) \<longrightarrow>
           Created q \<in> set (calls w) \<or> q \<notin> dom (files (final (transcribe_audio env p d w))))"
  proof (cases r)
    case (Inl e)
    with l f c show ?thesis by (simp add: transcribe_audio_def)
  next
    case (Inr m)
    let ?t = "try_block env m p d \<lparr>world = w1, temp_files = [], all_transcriptions = []\<rparr>"
    let ?fr = "final ?t"
    from try_block_tracks [of "\<lparr>world = w1, temp_files = [], all_transcriptions = []\<rparr>" env m p d]
    have 1: "dom (files (world ?fr)) \<subseteq> dom (files w) \<union> set (temp_files ?fr)"
      and 2: "\<And>q. Created q \<in> set (calls (world ?fr)) \<Longrightarrow>
        Created q \<in> set (calls w) \<or> q \<in> set (temp_files ?fr)"
      by (simp_all add: f c)
    have rm: "\<forall>p \<in> set (temp_files ?fr). os_remove env p = None"
      using assms by simp
    have e: "transcribe_audio env p d w = finally_block env (handlers ?t)"
      using l Inr by (simp add: transcribe_audio_def)
    have 3: "files (final (transcribe_audio env p d w)) =
        (\<lambda>q. if q \<in> set (temp_files ?fr) then None else files (world ?fr) q)"
    proof -
      have "files (final (transcribe_audio env p d w)) =
          files (final (remove_all env (temp_files ?fr) (world (final (handlers ?t)))))"
        by (simp add: e finally_block_fields)
      also have "\<dots> =
          (\<lambda>q. if q \<in> set (temp_files ?fr) then None else files (world (final (handlers ?t))) q)"
        by (rule files_remove_all [OF rm])
      also have "\<dots> =
          (\<lambda>q. if q \<in> set (temp_files ?fr) then None else files (world ?fr) q)"
        by (simp cong: if_cong)
      finally show ?thesis .
    qed
    have 4: "Created q \<in> set (calls (final (transcribe_audio env p d w))) \<longleftrightarrow>
        Created q \<in> set (calls (world ?fr))"
      by (simp add: e finally_block_fields)
    show ?thesis
      unfolding 3 4 using 1 2 by (auto simp add: dom_def split: if_splits)
  qed
  then show "dom (files (final (transcribe_audio env p d w))) \<subseteq> dom (files w)"
    and "Created q \<in> set (calls (final (transcribe_audio env p d w))) \<Longrightarrow>
      Created q \<in> set (calls w) \<or> q \<notin> dom (files (final (transcribe_audio env p d w)))"
    by simp_all
qed

lemma demo_long_run_creates:
  "Created ''/tmp/tmpxxx.wav''
     \<in> set (calls (final (transcribe_audio demo_env ''long.wav'' 1 demo_world)))"
  by (simp add: transcribe_audio_def finally_block_def handlers_def try_block_def load_model_def
      normalize_def to_mono_def to_16k_def transcribe_segments_def segment_step_def
      segment_bounds_def demo_defs demo_quotients Let_def upt_rec)

text \<open>
  Claim C2, as the script has it. Within one pass of the loop, a temporary file that was
  created is on the list however the pass ends (also when export or transcription raises),
  because it is appended before either is attempted. When no \<^verbatim>\<open>os.remove\<close>
  raises, the \<^verbatim>\<open>finally\<close> block removes every recorded path from disk, whether
  the \<^verbatim>\<open>try\<close> block completed or raised; hence after every such call, whether it
  returns or raises and whatever the other libraries do, every file on disk was on disk
  before the call, and every temporary file created during the call is gone.
\<close>

theorem temporary_files_are_removed:
  "((\<forall>p \<in> set (temp_files (final r)). os_remove env p = None) \<longrightarrow>
      (\<forall>p \<in> set (temp_files (final r)). p \<notin> dom (files (final (finally_block env r)))))
   \<and> (named_temporary_file env (files (world fr)) i = Inr p \<longrightarrow>
        p \<in> set (temp_files (final (segment_step env m a s t n i fr))))
   \<and> ((\<forall>p. os_remove env p = None) \<longrightarrow>
        dom (files (final (transcribe_audio env audio_path d w))) \<subseteq> dom (files w)
        \<and> (\<forall>q. Created q \<in> set (calls (final (transcribe_audio env audio_path d w))) \<longrightarrow>
              Created q \<in> set (calls w)
              \<or> q \<notin> dom (files (final (transcribe_audio env audio_path d w)))))"
proof (intro conjI ballI allI impI)
  fix p assume "\<forall>p \<in> set (temp_files (final r)). os_remove env p = None"
    and "p \<in> set (temp_files (final r))"
  then show "p \<notin> dom (files (final (finally_block env r)))"
    by (rule finally_block_removes)
next
  assume "named_temporary_file env (files (world fr)) i = Inr p"
  then show "p \<in> set (temp_files (final (segment_step env m a s t n i fr)))"
    by (rule segment_step_registers)
next
  assume "\<forall>p. os_remove env p = None"
  then show "dom (files (final (transcribe_audio env audio_path d w))) \<subseteq> dom (files w)"
    by (rule call_leaves_no_file(1))
next
  fix q assume "\<forall>p. os_remove env p = None"
    and "Created q \<in> set (calls (final (transcribe_audio env audio_path d w)))"
  then show "Created q \<in> set (calls w)
      \<or> q \<notin> dom (files (final (transcribe_audio env audio_path d w)))"
    by (rule call_leaves_no_file(2))
qed

theorem temporary_files_are_removed_witness:
  "(\<forall>p. os_remove demo_env p = None)
   \<and> ''/tmp/a.wav'' \<in> set (temp_files (final (Raised (OtherException ''boom'') leftover_frame)))
   \<and> ''/tmp/a.wav'' \<in> dom (files (world leftover_frame))
   \<and> ''/tmp/a.wav''
       \<notin> dom (files (final (finally_block demo_env
           (Raised (OtherException ''boom'') leftover_frame))))
   \<and> named_temporary_file demo_env (files (world demo_frame)) 0 = Inr ''/tmp/tmp.wav''
   \<and> ''/tmp/tmp.wav''
       \<in> set (temp_files (final (segment_step demo_env 7 demo_audio 1000 2500 3 0 demo_frame)))
   \<and> raised (try_block demo_env 7 ''long.wav'' 1
        \<lparr>world = snd (load_model demo_env demo_world), temp_files = [],
         all_transcriptions = []\<rparr>) = Some (OtherException ''CUDA out of memory'')
   \<and> Created ''/tmp/tmpxxx.wav''
       \<in> set (calls (final (transcribe_audio demo_env ''long.wav'' 1 demo_world)))
   \<and> Created ''/tmp/tmpxxx.wav'' \<notin> set (calls demo_world)
   \<and> ''/tmp/tmpxxx.wav'' \<notin> dom (files (final (transcribe_audio demo_env ''long.wav'' 1 demo_world)))"
proof -
  let ?r = "Raised (OtherException ''boom'') leftover_frame"
  have 0: "\<forall>p. os_remove demo_env p = None"
    and 1: "''/tmp/a.wav'' \<in> set (temp_files (final ?r))"
    and x: "''/tmp/a.wav'' \<in> dom (files (world leftover_frame))"
    and 2: "named_temporary_file demo_env (files (world demo_frame)) 0 = Inr ''/tmp/tmp.wav''"
    and 3: "Created ''/tmp/tmpxxx.wav'' \<notin> set (calls demo_world)"
    by (simp_all add: demo_defs)
  from temporary_files_are_removed [where r = ?r and env = demo_env] 0 1
  have a: "''/tmp/a.wav'' \<notin> dom (files (final (finally_block demo_env ?r)))"
    by blast
  from temporary_files_are_removed
    [where fr = demo_frame and env = demo_env and i = 0 and p = "''/tmp/tmp.wav''" and m = 7
      and a = demo_audio and s = 1000 and t = 2500 and n = 3] 2
  have b: "''/tmp/tmp.wav''
      \<in> set (temp_files (final (segment_step demo_env 7 demo_audio 1000 2500 3 0 demo_frame)))"
    by blast
  from temporary_files_are_removed
    [where env = demo_env and audio_path = "''long.wav''" and d = 1 and w = demo_world]
    0 3 demo_long_run_creates
  have c: "''/tmp/tmpxxx.wav''
      \<notin> dom (files (final (transcribe_audio demo_env ''long.wav'' 1 demo_world)))"
    by blast
  from 0 1 x 2 3 a b c demo_long_run_creates demo_long_run_raises show ?thesis
    by simp
qed

text \<open>
  The claim as written, for every run, fails: when \<^verbatim>\<open>os.remove\<close> raises on the
  second of three recorded files, the loop of the \<^verbatim>\<open>finally\<close> block ends there,
  the exception leaves the function, and the third file, recorded and still on disk, is never
  removed.
\<close>

theorem locked_temporary_file_stays_on_disk:
  "''/tmp/tmpxx.wav''
     \<in> set (temp_files (final (try_block locked_env 7 ''talk.wav'' 1
         \<lparr>world = snd (load_model locked_env demo_world), temp_files = [],
          all_transcriptions = []\<rparr>)))
   \<and> ''/tmp/tmpxx.wav'' \<notin> dom (files demo_world)
   \<and> raised (transcribe_audio locked_env ''talk.wav'' 1 demo_world) =
       Some (OtherException ''Permission denied'')
   \<and> ''/tmp/tmpxx.wav''
       \<in> dom (files (final (transcribe_audio locked_env ''talk.wav'' 1 demo_world)))"
  by (simp add: transcribe_audio_def finally_block_def handlers_def try_block_def load_model_def
      normalize_def to_mono_def to_16k_def transcribe_segments_def segment_step_def
      segment_bounds_def demo_defs demo_quotients Let_def upt_rec)

section \<open>Transcript fragments\<close>

lemma fragment_of_cases:
  "fragment_of r =
     (case r of Results (h # hs) \<Rightarrow> text_of h | _ \<Rightarrow> ''[Transcription Failed for Segment]'')"
  by (cases r rule: fragment_of.cases) (simp_all add: placeholder_def)

lemma segment_step_fragment:
  assumes "segment_step env m a s t n i fr = Completed fr'"
  shows "\<exists>fs p res.
      fs p = Some (Wav \<lparr>source = a, slice_start = fst (segment_bounds s t i),
        slice_end = snd (segment_bounds s t i)\<rparr>)
      \<and> transcribe env m fs [p] = Inr res
      \<and> all_transcriptions fr' = all_transcriptions fr @ [fragment_of res]"
proof -
  obtain st en where b: "segment_bounds s t i = (st, en)"
    by (cases "segment_bounds s t i")
  let ?seg = "\<lparr>source = a, slice_start = st, slice_end = en\<rparr>"
  let ?w0 = "called (Named_temporary_file i) (world fr)"
  from assms b obtain p where p: "named_temporary_file env (files ?w0) i = Inr p"
    by (cases "named_temporary_file env (files ?w0) i") (simp_all add: segment_step_def Let_def)
  let ?w1 = "called (Created p) (?w0\<lparr>files := (files ?w0)(p \<mapsto> Blank)\<rparr>)"
  let ?w2 = "called (Export ?seg p) ?w1"
  let ?w3 = "?w2\<lparr>files := (files ?w2)(p \<mapsto> Wav ?seg)\<rparr>"
  from assms b p have x: "export env ?seg p = None"
    by (cases "export env ?seg p") (simp_all add: segment_step_def Let_def)
  from assms b p x obtain q1 where q1: "py_truediv st 1000 = Inr q1"
    by (cases "py_truediv st 1000") (simp_all add: segment_step_def Let_def)
  from assms b p x q1 obtain q2 where q2: "py_truediv en 1000 = Inr q2"
    by (cases "py_truediv en 1000") (simp_all add: segment_step_def Let_def)
  let ?w4 = "called (Transcribe [p]) (print (Transcribing (i + 1) n q1 q2) ?w3)"
  from assms b p x q1 q2 obtain res where res: "transcribe env m (files ?w4) [p] = Inr res"
    by (cases "transcribe env m (files ?w4) [p]") (simp_all add: segment_step_def Let_def)
  from assms b p x q1 q2 res
  have "all_transcriptions fr' = all_transcriptions fr @ [fragment_of res]"
    by (auto simp add: segment_step_def Let_def)
  moreover have "files ?w4 p = Some (Wav \<lparr>source = a, slice_start = fst (segment_bounds s t i),
      slice_end = snd (segment_bounds s t i)\<rparr>)"
    by (simp add: b)
  ultimately show ?thesis
    using res by blast
qed

lemma segment_loop_fragments:
  assumes "segment_loop env m a s t n is fr = Completed fr'"
    and "\<forall>i \<in> set is. \<forall>fs p.
      fs p = Some (Wav \<lparr>source = a, slice_start = fst (segment_bounds s t i),
        slice_end = snd (segment_bounds s t i)\<rparr>) \<longrightarrow>
      transcribe env m fs [p] = Inr (r i)"
  shows "all_transcriptions fr' = all_transcriptions fr @ map (\<lambda>i. fragment_of (r i)) is"
  using assms
proof (induction "is" arbitrary: fr)
  case Nil
  then show ?case by simp
next
  case (Cons i "is")
  from Cons.prems(1) obtain fr1 where s: "segment_step env m a s t n i fr = Completed fr1"
    and l: "segment_loop env m a s t n is fr1 = Completed fr'"
    by (cases "segment_step env m a s t n i fr") simp_all
  from segment_step_fragment [OF s] obtain fs p res
    where f: "fs p = Some (Wav \<lparr>source = a, slice_start = fst (segment_bounds s t i),
        slice_end = snd (segment_bounds s t i)\<rparr>)"
      and t: "transcribe env m fs [p] = Inr res"
      and e: "all_transcriptions fr1 = all_transcriptions fr @ [fragment_of res]"
    by blast
  from Cons.prems(2) f have "transcribe env m fs [p] = Inr (r i)"
    by simp
  with t e have "all_transcriptions fr1 = all_transcriptions fr @ [fragment_of (r i)]"
    by simp
  moreover from Cons.IH [OF l] Cons.prems(2)
  have "all_transcriptions fr' = all_transcriptions fr1 @ map (\<lambda>i. fragment_of (r i)) is"
    by simp
  ultimately show ?case by simp
qed

lemma demo_loop_completes:
  "raised (segment_loop demo_env 7 demo_audio 1000 2500 3 [0, 1, 2] demo_frame) = None"
  by (simp add: segment_step_def segment_bounds_def demo_defs demo_quotients Let_def)

text \<open>
  Claim C3. A pass of the loop that completes appends one fragment: the text of the first
  result when the model returned a non-empty list of results, and otherwise (an empty list,
  or nothing) exactly the string \<open>[Transcription Failed for Segment]\<close>. Hence, when the
  loop completes and the model answers \<open>r i\<close> for the file that holds segment \<open>i\<close>, the
  fragments collected are those of \<open>r i\<close>, in segment order.
\<close>

theorem fragment_is_text_or_placeholder:
  "(segment_step env m a s t n i fr = Completed fr1 \<longrightarrow>
      (\<exists>fs p res.
         fs p = Some (Wav \<lparr>source = a, slice_start = fst (segment_bounds s t i),
           slice_end = snd (segment_bounds s t i)\<rparr>)
         \<and> transcribe env m fs [p] = Inr res
         \<and> all_transcriptions fr1 = all_transcriptions fr @
             [case res of Results (h # hs) \<Rightarrow> text_of h
              | _ \<Rightarrow> ''[Transcription Failed for Segment]'']))
   \<and> (segment_loop env m a s t n js fr = Completed fr'
        \<and> (\<forall>i \<in> set js. \<forall>fs p.
              fs p = Some (Wav \<lparr>source = a, slice_start = fst (segment_bounds s t i),
                slice_end = snd (segment_bounds s t i)\<rparr>) \<longrightarrow>
              transcribe env m fs [p] = Inr (r i)) \<longrightarrow>
        all_transcriptions fr' = all_transcriptions fr @
          map (\<lambda>i. case r i of Results (h # hs) \<Rightarrow> text_of h
                   | _ \<Rightarrow> ''[Transcription Failed for Segment]'') js)"
proof (intro conjI impI)
  assume "segment_step env m a s t n i fr = Completed fr1"
  from segment_step_fragment [OF this] obtain fs p res
    where "fs p = Some (Wav \<lparr>source = a, slice_start = fst (segment_bounds s t i),
        slice_end = snd (segment_bounds s t i)\<rparr>)"
      and "transcribe env m fs [p] = Inr res"
      and "all_transcriptions fr1 = all_transcriptions fr @ [fragment_of res]"
    by blast
  then have "fs p = Some (Wav \<lparr>source = a, slice_start = fst (segment_bounds s t i),
        slice_end = snd (segment_bounds s t i)\<rparr>)
      \<and> transcribe env m fs [p] = Inr res
      \<and> all_transcriptions fr1 = all_transcriptions fr @
          [case res of Results (h # hs) \<Rightarrow> text_of h
           | _ \<Rightarrow> ''[Transcription Failed for Segment]'']"
    by (simp only: fragment_of_cases)
  then show "\<exists>fs p res.
      fs p = Some (Wav \<lparr>source = a, slice_start = fst (segment_bounds s t i),
        slice_end = snd (segment_bounds s t i)\<rparr>)
      \<and> transcribe env m fs [p] = Inr res
      \<and> all_transcriptions fr1 = all_transcriptions fr @
          [case res of Results (h # hs) \<Rightarrow> text_of h
           | _ \<Rightarrow> ''[Transcription Failed for Segment]'']"
    by (intro exI)
next
  assume h: "segment_loop env m a s t n js fr = Completed fr'
    \<and> (\<forall>i \<in> set js. \<forall>fs p.
          fs p = Some (Wav \<lparr>source = a, slice_start = fst (segment_bounds s t i),
            slice_end = snd (segment_bounds s t i)\<rparr>) \<longrightarrow>
          transcribe env m fs [p] = Inr (r i))"
  have "all_transcriptions fr' = all_transcriptions fr @ map (\<lambda>i. fragment_of (r i)) js"
    by (rule segment_loop_fragments [OF conjunct1 [OF h] conjunct2 [OF h]])
  then show "all_transcriptions fr' = all_transcriptions fr @
      map (\<lambda>i. case r i of Results (h # hs) \<Rightarrow> text_of h
               | _ \<Rightarrow> ''[Transcription Failed for Segment]'') js"
    by (simp only: fragment_of_cases)
qed

theorem fragment_is_text_or_placeholder_witness:
  "raised (segment_loop demo_env 7 demo_audio 1000 2500 3 [0, 1, 2] demo_frame) = None
   \<and> transcribe demo_env 7
       [''f'' \<mapsto> Wav \<lparr>source = demo_audio, slice_start = 1000, slice_end = 2000\<rparr>] [''f''] =
       Inr (Results [])
   \<and> all_transcriptions (final
        (segment_loop demo_env 7 demo_audio 1000 2500 3 [0, 1, 2] demo_frame)) =
       [''hello'', ''[Transcription Failed for Segment]'', ''world'']"
proof -
  let ?l = "segment_loop demo_env 7 demo_audio 1000 2500 3 [0, 1, 2] demo_frame"
  let ?r = "\<lambda>i::nat. if i = 0 then Results [Hypothesis ''hello'', Hypothesis ''unused'']
    else if i = 1 then Results [] else Results [Hypothesis ''world'']"
  have c: "?l = Completed (final ?l)"
    by (rule outcome_completed) (rule demo_loop_completes)
  have h: "\<forall>i \<in> set [0, 1, 2]. \<forall>fs p.
      fs p = Some (Wav \<lparr>source = demo_audio, slice_start = fst (segment_bounds 1000 2500 i),
        slice_end = snd (segment_bounds 1000 2500 i)\<rparr>) \<longrightarrow>
      transcribe demo_env 7 fs [p] = Inr (?r i)"
    by (simp add: demo_env_def demo_transcribe_def segment_bounds_def)
  have e: "all_transcriptions demo_frame = []"
    by (simp add: demo_frame_def)
  from fragment_is_text_or_placeholder
    [where env = demo_env and m = 7 and a = demo_audio and s = 1000 and t = 2500 and n = 3
      and js = "[0, 1, 2]" and fr = demo_frame and fr' = "final ?l" and r = ?r]
  have "?l = Completed (final ?l)
      \<and> (\<forall>i \<in> set [0, 1, 2]. \<forall>fs p.
            fs p = Some (Wav \<lparr>source = demo_audio,
              slice_start = fst (segment_bounds 1000 2500 i),
              slice_end = snd (segment_bounds 1000 2500 i)\<rparr>) \<longrightarrow>
            transcribe demo_env 7 fs [p] = Inr (?r i)) \<longrightarrow>
      all_transcriptions (final ?l) = all_transcriptions demo_frame @
        map (\<lambda>i. case ?r i of Results (h # hs) \<Rightarrow> text_of h
                 | _ \<Rightarrow> ''[Transcription Failed for Segment]'') [0, 1, 2]"
    by (rule conjunct2)
  with c h have "all_transcriptions (final ?l) = all_transcriptions demo_frame @
      map (\<lambda>i. case ?r i of Results (h # hs) \<Rightarrow> text_of h
               | _ \<Rightarrow> ''[Transcription Failed for Segment]'') [0, 1, 2]"
    by (elim impE) (intro conjI)
  then have "all_transcriptions (final ?l) =
      [''hello'', ''[Transcription Failed for Segment]'', ''world'']"
    by (simp add: e)
  moreover have "transcribe demo_env 7
      [''f'' \<mapsto> Wav \<lparr>source = demo_audio, slice_start = 1000, slice_end = 2000\<rparr>] [''f''] =
      Inr (Results [])"
    by (simp add: demo_env_def demo_transcribe_def)
  ultimately show ?thesis
    using demo_loop_completes by simp
qed

section \<open>The segment count\<close>

lemma round_half_even_range:
  "n div d \<le> round_half_even n d \<and> round_half_even n d \<le> n div d + 1"
  by (simp add: round_half_even_def Let_def)

lemma round_half_even_exact: "0 < d \<Longrightarrow> round_half_even (c * d) d = c"
  by (simp add: round_half_even_def Let_def)

lemma round_half_even_up: "d < 2 * (n mod d) \<Longrightarrow> round_half_even n d = n div d + 1"
  by (simp add: round_half_even_def Let_def)

lemma ceil_of_rounded:
  fixes a b p :: int
  assumes "0 < a" "0 < b" "1 \<le> p" "b < 2 * p"
  shows "- ((- round_half_even (a * p) b) div p) = - ((- a) div b)"
proof -
  define k where "k = a div b"
  define r where "r = a mod b"
  have a: "a = k * b + r"
    by (simp add: k_def r_def)
  have r: "0 \<le> r" "r < b"
    using assms(2) by (simp_all add: r_def)
  define q where "q = (a * p) div b"
  define s where "s = (a * p) mod b"
  have ap: "a * p = q * b + s"
    by (simp add: q_def s_def)
  have s: "0 \<le> s" "s < b"
    using assms(2) by (simp_all add: s_def)
  let ?m = "round_half_even (a * p) b"
  have m: "q \<le> ?m" "?m \<le> q + 1"
    using round_half_even_range [of "a * p" b] by (simp_all add: q_def)
  show ?thesis
  proof (cases "r = 0")
    case True
    with a have a': "a = k * b" by simp
    then have e: "a * p = (k * p) * b" by (simp add: algebra_simps)
    have "?m = k * p"
      unfolding e by (rule round_half_even_exact [OF assms(2)])
    moreover have "(- (k * p)) div p = - k"
      using assms(3) by (metis div_minus_minus minus_mult_left mult_minus_left
          nonzero_mult_div_cancel_right not_one_le_zero)
    moreover have "(- a) div b = - k"
      unfolding a' using assms(2)
      by (metis minus_mult_left nonzero_mult_div_cancel_right less_irrefl)
    ultimately show ?thesis by simp
  next
    case False
    with r have rpos: "1 \<le> r" by simp
    have rhs: "(- a) div b = - (k + 1)"
    proof (rule int_div_pos_eq [where r = "b - r"])
      show "- a = b * - (k + 1) + (b - r)"
        by (subst a) (simp add: algebra_simps)
      show "0 \<le> b - r" using r by simp
      show "b - r < b" using rpos by simp
    qed
    have "r * p < b * p"
      using r(2) assms(3) by (simp add: mult_strict_right_mono)
    then have "a * p < (k + 1) * p * b"
      by (subst a) (simp add: algebra_simps)
    with ap s(1) have "q * b < (k + 1) * p * b"
      by simp
    then have "q < (k + 1) * p"
      using assms(2) by (simp add: mult_less_cancel_right)
    with m(2) have hi: "?m \<le> (k + 1) * p"
      by simp
    have "0 \<le> r * p"
      using r(1) assms(3) by simp
    then have "k * p * b \<le> a * p"
      by (subst a) (simp add: algebra_simps)
    with ap s(2) have "k * p * b < (q + 1) * b"
      by (simp add: algebra_simps)
    then have kq: "k * p \<le> q"
      using assms(2) by (simp add: mult_less_cancel_right)
    have lo: "k * p < ?m"
    proof (cases "k * p < q")
      case True
      with m(1) show ?thesis by simp
    next
      case False
      with kq have qk: "q = k * p" by simp
      have "s = r * p"
        using ap by (subst (asm) a) (simp add: qk algebra_simps)
      moreover have "p \<le> r * p"
        using rpos assms(3) by (simp add: mult_le_cancel_right1)
      ultimately have "b < 2 * s"
        using assms(4) by simp
      then have "?m = q + 1"
        using round_half_even_up [of b "a * p"] by (simp add: s_def q_def)
      then show ?thesis by (simp add: qk)
    qed
    have "(- ?m) div p = - (k + 1)"
    proof (rule int_div_pos_eq [where r = "(k + 1) * p - ?m"])
      show "- ?m = p * - (k + 1) + ((k + 1) * p - ?m)"
        by (simp add: algebra_simps)
      show "0 \<le> (k + 1) * p - ?m" using hi by simp
      show "(k + 1) * p - ?m < p" using lo by (simp add: algebra_simps)
    qed
    with rhs show ?thesis by simp
  qed
qed


lemma scale_nonneg: "0 \<le> e \<Longrightarrow> scale a b e = (a, b * 2 ^ nat e)"
  by (simp add: scale_def)

lemma scale_neg: "e < 0 \<Longrightarrow> scale a b e = (a * 2 ^ nat (- e), b)"
  by (simp add: scale_def)

lemma scale_nonpos: "e \<le> 0 \<Longrightarrow> scale a b e = (a * 2 ^ nat (- e), b)"
  by (cases "e = 0") (simp_all add: scale_def)

lemma ilog2_quot_lower:
  assumes "0 < a" "0 < b"
  shows "snd (scale a b (ilog2_quot a b)) \<le> fst (scale a b (ilog2_quot a b))"
proof -
  define d where "d = bitlen a - bitlen b"
  show ?thesis
  proof (cases "snd (scale a b d) \<le> fst (scale a b d)")
    case True
    then show ?thesis by (simp add: ilog2_quot_def Let_def d_def)
  next
    case False
    then have j: "ilog2_quot a b = d - 1"
      by (simp add: ilog2_quot_def Let_def d_def)
    define la where "la = nat (bitlen a - 1)"
    define lb where "lb = nat (bitlen b)"
    have ba: "2 ^ la \<le> a" and bb: "b < 2 ^ lb"
      using bitlen_bounds [OF assms(1)] bitlen_bounds [OF assms(2)]
      by (simp_all add: la_def lb_def)
    have "1 \<le> bitlen a"
      using assms(1) bitlen_eq_zero_iff [of a] bitlen_nonneg [of a] by linarith
    then have la: "bitlen a = int la + 1"
      by (simp add: la_def)
    have lb: "bitlen b = int lb"
      using bitlen_nonneg [of b] by (simp add: lb_def)
    have d: "d - 1 = int la - int lb"
      by (simp add: d_def la lb)
    show ?thesis
    proof (cases "0 \<le> d - 1")
      case True
      then have n: "nat (d - 1) = la - lb" and le: "lb \<le> la"
        using d by simp_all
      have "b * 2 ^ (la - lb) \<le> 2 ^ lb * 2 ^ (la - lb)"
        using bb by (simp add: mult_right_mono)
      also have "\<dots> = (2::int) ^ la"
        using le by (simp flip: power_add)
      finally have "b * 2 ^ (la - lb) \<le> a"
        using ba by simp
      then show ?thesis
        using True by (simp add: j scale_nonneg n)
    next
      case False
      then have n: "nat (- (d - 1)) = lb - la" and le: "la \<le> lb"
        using d by simp_all
      have "b \<le> 2 ^ lb"
        using bb by simp
      also have "\<dots> = (2::int) ^ la * 2 ^ (lb - la)"
        using le by (simp flip: power_add)
      also have "\<dots> \<le> a * 2 ^ (lb - la)"
        using ba by (simp add: mult_right_mono)
      finally have r: "b \<le> a * 2 ^ (lb - la)" .
      from False have neg: "d - 1 < 0" by simp
      show ?thesis
        unfolding j scale_neg [OF neg] n using r by simp
    qed
  qed
qed

lemma float_exponent_bounds:
  fixes a b :: int
  assumes "0 < a" "a < 2 ^ 53" "0 < b" "b < 2 ^ 1075"
  defines "e \<equiv> max (ilog2_quot a b - 52) (- 1074)"
  shows "e \<le> 0" and "b < 2 * 2 ^ nat (- e)"
proof -
  define j where "j = ilog2_quot a b"
  have low: "snd (scale a b j) \<le> fst (scale a b j)"
    unfolding j_def by (rule ilog2_quot_lower [OF assms(1) assms(3)])
  have j52: "j \<le> 52"
  proof (rule ccontr)
    assume "\<not> j \<le> 52"
    then have j53: "53 \<le> nat j" and "0 \<le> j" by simp_all
    with low have "b * 2 ^ nat j \<le> a"
      by (simp add: scale_nonneg)
    moreover have "(2::int) ^ 53 \<le> 2 ^ nat j"
      using j53 by (rule power_increasing) simp
    moreover have "(2::int) ^ nat j \<le> b * 2 ^ nat j"
      using assms(3) by (simp add: mult_le_cancel_right1)
    ultimately show False
      using assms(2) by linarith
  qed
  then show "e \<le> 0"
    by (simp add: e_def j_def)
  show "b < 2 * 2 ^ nat (- e)"
  proof (cases "j - 52 \<le> - 1074")
    case True
    then have "e = - 1074"
      by (simp add: e_def j_def)
    then have "nat (- e) = 1074" by simp
    then have "(2::int) * 2 ^ nat (- e) = 2 ^ 1075"
      by (simp only: power_Suc [symmetric]) simp
    with assms(4) show ?thesis by simp
  next
    case False
    then have e: "e = j - 52"
      by (simp add: e_def j_def)
    show ?thesis
    proof (cases "0 \<le> j")
      case True
      define jn where "jn = nat j"
      have jn: "j = int jn" "jn \<le> 52"
        using True j52 by (simp_all add: jn_def)
      have ne: "nat (- e) = 52 - jn"
        using jn by (simp add: e)
      from low True have "b * 2 ^ jn \<le> a"
        by (simp add: scale_nonneg jn_def)
      with assms(2) have "b * 2 ^ jn < 2 ^ 53"
        by linarith
      also have "(2::int) ^ 53 = 2 ^ (53 - jn) * 2 ^ jn"
        using jn(2) by (simp flip: power_add)
      finally have "b < 2 ^ (53 - jn)"
        by (simp add: mult_less_cancel_right)
      also have "(2::int) ^ (53 - jn) = 2 * 2 ^ (52 - jn)"
        using jn(2) by (simp add: Suc_diff_le flip: power_Suc)
      finally show ?thesis
        by (simp add: ne)
    next
      case False
      define c where "c = nat (- j)"
      have c: "j = - int c"
        using False by (simp add: c_def)
      have ne: "nat (- e) = 52 + c"
        by (simp add: e c)
      from low False have "b \<le> a * 2 ^ c"
        by (simp add: scale_neg c_def)
      also have "\<dots> < 2 ^ 53 * 2 ^ c"
        using assms(2) by (simp add: mult_strict_right_mono)
      also have "\<dots> = (2::int) * 2 ^ (52 + c)"
        by (simp add: power_add)
      finally show ?thesis
        by (simp add: ne)
    qed
  qed
qed


lemma num_segments_exact:
  fixes a b :: int
  assumes "0 < a" "a < 2 ^ 53" "0 < b" "b < 2 ^ 1075"
  shows "num_segments a b = Inr (- ((- a) div b))"
proof -
  define e where "e = max (ilog2_quot a b - 52) (- 1074)"
  define p where "p = (2::int) ^ nat (- e)"
  have e0: "e \<le> 0" and bp: "b < 2 * p"
    using float_exponent_bounds [OF assms] by (simp_all add: e_def p_def)
  have p1: "1 \<le> p"
    by (simp add: p_def)
  have sc: "scale a b e = (a * p, b)"
    by (simp add: scale_nonpos [OF e0] p_def)
  define m where "m = round_half_even (a * p) b"
  have no_overflow: "\<not> (0 \<le> e \<and> 2 ^ 1024 \<le> m * 2 ^ nat e)"
  proof
    assume "0 \<le> e \<and> 2 ^ 1024 \<le> m * 2 ^ nat e"
    with e0 have "e = 0" and big: "2 ^ 1024 \<le> m" by simp_all
    then have "p = 1" by (simp add: p_def)
    then have "m \<le> a div b + 1"
      using round_half_even_range [of a b] by (simp add: m_def)
    moreover have "a div b \<le> a"
      using zdiv_mono2 [of a 1 b] assms(1) assms(3) by simp
    ultimately have "m \<le> 2 ^ 53"
      using assms(2) by linarith
    with big show False by simp
  qed
  have "round_quot a b = Inr (m, e)"
    unfolding round_quot_def e_def [symmetric] Let_def sc fst_conv snd_conv m_def [symmetric]
    using no_overflow by simp
  then have "py_truediv a b = Inr \<lparr>negative = False, mantissa = m, exponent = e\<rparr>"
    using assms(1) assms(3) by (simp add: py_truediv_def)
  moreover have "math_ceil \<lparr>negative = False, mantissa = m, exponent = e\<rparr> = - ((- m) div p)"
    using e0 by (cases "e = 0") (simp_all add: math_ceil_def p_def)
  moreover have "- ((- m) div p) = - ((- a) div b)"
    unfolding m_def by (rule ceil_of_rounded [OF assms(1) assms(3) p1 bp])
  ultimately show ?thesis
    by (simp add: num_segments_def)
qed

lemma ceil_div_bounds:
  fixes t s :: int
  assumes "0 < s"
  shows "(- ((- t) div s) - 1) * s < t" and "t \<le> - ((- t) div s) * s"
proof -
  define q where "q = (- t) div s"
  define r where "r = (- t) mod s"
  have eq: "- t = s * q + r"
    by (simp add: q_def r_def)
  have r: "0 \<le> r" "r < s"
    using assms by (simp_all add: r_def)
  have "(- q - 1) * s = - (s * q) - s" and "- q * s = - (s * q)"
    by (simp_all add: algebra_simps)
  with eq r show "(- ((- t) div s) - 1) * s < t" and "t \<le> - ((- t) div s) * s"
    unfolding q_def [symmetric] by linarith+
qed

text \<open>
  The loop of \<^verbatim>\<open>transcribe_audio\<close> visits exactly the windows of the segmenter:
  both take their count from \<open>num_segments\<close> and their bounds from
  \<open>segment_bounds\<close>, and one fails when the other does.
\<close>

lemma segmenter_is_loop_range:
  "(segmenter d (length_ms a) = Inl e \<longrightarrow> transcribe_segments env m a d fr = Raised e fr)
   \<and> (segmenter d (length_ms a) = Inr segs \<longrightarrow>
        (\<exists>n. num_segments (int (length_ms a)) (d * 1000) = Inr n
           \<and> [0..<nat n] = [0..<length segs]
           \<and> segs = map (segment_bounds (d * 1000) (int (length_ms a))) [0..<nat n]))"
  by (auto simp add: segmenter_def transcribe_segments_def Let_def split: sum.splits)

lemma huge_audio_count: "num_segments 9007199254740992001 1000 = Inr 9007199254740992"
  by code_simp

lemma huge_segment_count: "num_segments (int 1) (2 ^ 1075 * 1000) = Inr 0"
  by code_simp

text \<open>
  Claim C1, as the script has it. The segment count is \<^verbatim>\<open>math.ceil\<close> of a float
  quotient, which is the exact ceiling as long as the float can tell the quotient from the
  integer below it. For every positive segment duration \<open>D\<close> (seconds) with
  \<open>D * 1000 < 2 ^ 1075\<close> and every total duration \<open>T < 2 ^ 53\<close> (milliseconds, some
  285000 years), the segmenter yields exactly \<open>\<lceil>T / (D * 1000)\<rceil>\<close> segments, segment
  \<open>i\<close> runs from \<open>i * D * 1000\<close> to \<open>min ((i + 1) * D * 1000) T\<close>, every segment is
  non-empty, each ends where the next starts, the first starts at 0 and the last ends at
  \<open>T\<close>; for \<open>T = 0\<close> there is no segment.
\<close>

theorem segmenter_partitions_audio:
  assumes "0 < D" "D * 1000 < 2 ^ 1075" "T < 2 ^ 53"
  shows "\<exists>segs. segmenter D T = Inr segs
    \<and> int (length segs) = \<lceil>real T / real_of_int (D * 1000)\<rceil>
    \<and> (\<forall>i < length segs.
          segs ! i = (int i * (D * 1000), min ((int i + 1) * (D * 1000)) (int T)))
    \<and> (\<forall>i < length segs. fst (segs ! i) < snd (segs ! i))
    \<and> (\<forall>i. Suc i < length segs \<longrightarrow> snd (segs ! i) = fst (segs ! Suc i))
    \<and> (segs \<noteq> [] \<longrightarrow> fst (hd segs) = 0 \<and> snd (last segs) = int T)
    \<and> (T = 0 \<longrightarrow> segs = [])"
proof -
  define S where "S = D * 1000"
  have S: "0 < S" "S < 2 ^ 1075"
    using assms by (simp_all add: S_def)
  define n where "n = - ((- int T) div S)"
  have c: "\<lceil>real T / real_of_int S\<rceil> = n"
    using ceiling_divide_eq_div [of "int T" S, where ?'a = real] by (simp add: n_def)
  have num: "num_segments (int T) S = Inr n"
  proof (cases "T = 0")
    case True
    with S(1) show ?thesis by (simp add: n_def num_segments_zero)
  next
    case False
    then have "0 < int T" by simp
    moreover have "int T < 2 ^ 53"
      using assms(3) by (metis of_nat_less_iff of_nat_numeral of_nat_power)
    ultimately show ?thesis
      unfolding n_def using S by (rule num_segments_exact)
  qed
  define segs where "segs = map (segment_bounds S (int T)) [0..<nat n]"
  have sg: "segmenter D T = Inr segs"
    by (simp add: segmenter_def S_def [symmetric] num segs_def)
  have lo: "(n - 1) * S < int T" and hi: "int T \<le> n * S"
    using ceil_div_bounds [OF S(1), of "int T"] by (simp_all add: n_def)
  have n0: "0 \<le> n"
  proof (rule ccontr)
    assume "\<not> 0 \<le> n"
    then have "n \<le> - 1" by simp
    then have "n * S \<le> - 1 * S"
      using S(1) by (intro mult_right_mono) simp_all
    with hi S(1) show False by simp
  qed
  have len: "length segs = nat n"
    by (simp add: segs_def)
  have nth: "segs ! i = (int i * S, min ((int i + 1) * S) (int T))" if "i < nat n" for i
    using that by (simp add: segs_def segment_bounds_def)
  have below: "int i * S < int T" if "i < nat n" for i
  proof -
    from that have "int i \<le> n - 1" by simp
    then have "int i * S \<le> (n - 1) * S"
      using S(1) by (intro mult_right_mono) simp_all
    with lo show ?thesis by simp
  qed
  have 1: "int (length segs) = \<lceil>real T / real_of_int (D * 1000)\<rceil>"
    using c n0 by (simp add: len S_def)
  have 2: "\<forall>i < length segs.
      segs ! i = (int i * (D * 1000), min ((int i + 1) * (D * 1000)) (int T))"
    using nth by (simp add: len S_def)
  have 3: "\<forall>i < length segs. fst (segs ! i) < snd (segs ! i)"
  proof (intro allI impI)
    fix i assume "i < length segs"
    then have i: "i < nat n" by (simp add: len)
    have "int i * S < (int i + 1) * S"
      using S(1) by (simp add: algebra_simps)
    with below [OF i] show "fst (segs ! i) < snd (segs ! i)"
      by (simp add: nth [OF i])
  qed
  have 4: "\<forall>i. Suc i < length segs \<longrightarrow> snd (segs ! i) = fst (segs ! Suc i)"
  proof (intro allI impI)
    fix i assume "Suc i < length segs"
    then have i: "Suc i < nat n" "i < nat n" by (simp_all add: len)
    from below [OF i(1)] have "(int i + 1) * S < int T"
      by (simp add: algebra_simps)
    then show "snd (segs ! i) = fst (segs ! Suc i)"
      by (simp add: nth [OF i(1)] nth [OF i(2)] algebra_simps)
  qed
  have 5: "segs \<noteq> [] \<longrightarrow> fst (hd segs) = 0 \<and> snd (last segs) = int T"
  proof
    assume "segs \<noteq> []"
    then have pos: "0 < nat n" by (simp add: segs_def)
    then have "hd segs = segs ! 0" and "last segs = segs ! (nat n - 1)"
      using \<open>segs \<noteq> []\<close> by (simp_all add: hd_conv_nth last_conv_nth len)
    moreover have "int (nat n - 1) + 1 = n"
      using pos by simp
    ultimately show "fst (hd segs) = 0 \<and> snd (last segs) = int T"
      using nth [of 0] nth [of "nat n - 1"] pos hi by simp
  qed
  have 6: "T = 0 \<longrightarrow> segs = []"
  proof
    assume "T = 0"
    then have "n = 0" by (simp add: n_def)
    then show "segs = []" by (simp add: segs_def)
  qed
  from sg 1 2 3 4 5 6 show ?thesis by blast
qed

theorem segmenter_partitions_audio_witness:
  "(0::int) < 60 \<and> (60::int) * 1000 < 2 ^ 1075 \<and> (150000::nat) < 2 ^ 53
   \<and> segmenter 60 150000 = Inr [(0, 60000), (60000, 120000), (120000, 150000)]"
proof -
  have h: "(0::int) < 60" "(60::int) * 1000 < 2 ^ 1075" "(150000::nat) < 2 ^ 53"
    by simp_all
  from segmenter_partitions_audio [OF h] obtain segs
    where sg: "segmenter 60 150000 = Inr segs"
      and len: "int (length segs) = \<lceil>real 150000 / real_of_int (60 * 1000)\<rceil>"
      and nth: "\<forall>i < length segs.
        segs ! i = (int i * (60 * 1000), min ((int i + 1) * (60 * 1000)) (int 150000))"
    by blast
  from len have l3: "length segs = 3"
    by simp
  have "segs = [(0, 60000), (60000, 120000), (120000, 150000)]"
  proof (rule nth_equalityI)
    show "length segs = length [(0::int, 60000::int), (60000, 120000), (120000, 150000)]"
      using l3 by simp
    fix i assume "i < length segs"
    with l3 have "i = 0 \<or> i = 1 \<or> i = 2"
      by arith
    with nth l3 show "segs ! i = [(0, 60000), (60000, 120000), (120000, 150000)] ! i"
      by auto
  qed
  with sg h show ?thesis by simp
qed

text \<open>
  The claim as written, for every \<open>T\<close> and \<open>D\<close>, fails. For
  \<open>T = 2 ^ 53 * 1000 + 1\<close> and \<open>D = 1\<close> the quotient rounds to the float \<open>2 ^ 53\<close>,
  so there are \<open>2 ^ 53\<close> segments where the ceiling is \<open>2 ^ 53 + 1\<close>, and the last
  segment ends 1 ms before the end of the audio. For \<open>T = 1\<close> and \<open>D = 2 ^ 1075\<close> the
  quotient rounds to the float 0, so there is no segment where the ceiling is 1.
\<close>

theorem segmenter_miscounts_huge_audio:
  "\<not> isl (segmenter 1 9007199254740992001)
   \<and> int (length (projr (segmenter 1 9007199254740992001))) = 9007199254740992
   \<and> \<lceil>real 9007199254740992001 / real_of_int (1 * 1000)\<rceil> = 9007199254740993
   \<and> snd (last (projr (segmenter 1 9007199254740992001))) = 9007199254740992000
   \<and> segmenter (2 ^ 1075) 1 = Inr []
   \<and> \<lceil>real 1 / real_of_int (2 ^ 1075 * 1000)\<rceil> = 1"
proof -
  have "\<not> isl (segmenter 1 9007199254740992001)
      \<and> int (length (projr (segmenter 1 9007199254740992001))) = 9007199254740992
      \<and> \<lceil>real 9007199254740992001 / real_of_int (1 * 1000)\<rceil> = 9007199254740993
      \<and> snd (last (projr (segmenter 1 9007199254740992001))) = 9007199254740992000"
    by (simp add: segmenter_def huge_audio_count segment_bounds_def last_map)
  moreover have "segmenter (2 ^ 1075) 1 = Inr []"
    unfolding segmenter_def Let_def huge_segment_count by simp
  moreover have "\<lceil>real 1 / real_of_int (2 ^ 1075 * 1000)\<rceil> = 1"
    by (simp add: ceiling_eq_iff)
  ultimately show ?thesis by simp
qed

end
